theory Spec2Isabelle
  imports Main "HOL-Library.AList"
begin

section \<open>Strings of LogXML2Chunks\<close>

text \<open>
  Python strings are modelled as \<^typ>\<open>string\<close>: lists of characters with code points
  below 256. The character classes below are those of \<^verbatim>\<open>str.isspace\<close>, \<^verbatim>\<open>str.lower\<close> and
  of the \<^verbatim>\<open>re\<close> classes \<^verbatim>\<open>\s\<close>, \<^verbatim>\<open>\d\<close>, \<^verbatim>\<open>\w\<close> on that range.
\<close>

definition is_space :: "char \<Rightarrow> bool" where
  "is_space c = (let n = (of_char c :: nat) in
     (9 \<le> n \<and> n \<le> 13) \<or> (28 \<le> n \<and> n \<le> 32) \<or> n = 133 \<or> n = 160)"

definition is_digit :: "char \<Rightarrow> bool" where
  "is_digit c = (let n = (of_char c :: nat) in 48 \<le> n \<and> n \<le> 57)"

definition is_word :: "char \<Rightarrow> bool" where
  "is_word c = (let n = (of_char c :: nat) in
     (48 \<le> n \<and> n \<le> 57) \<or> (65 \<le> n \<and> n \<le> 90) \<or> n = 95 \<or> (97 \<le> n \<and> n \<le> 122) \<or>
     n = 170 \<or> n = 178 \<or> n = 179 \<or> n = 181 \<or> n = 185 \<or> n = 186 \<or>
     (188 \<le> n \<and> n \<le> 190) \<or> (192 \<le> n \<and> n \<le> 214) \<or> (216 \<le> n \<and> n \<le> 246) \<or>
     (248 \<le> n \<and> n \<le> 255))"

definition lower_char :: "char \<Rightarrow> char" where
  "lower_char c = (let n = (of_char c :: nat) in
     if (65 \<le> n \<and> n \<le> 90) \<or> (192 \<le> n \<and> n \<le> 214) \<or> (216 \<le> n \<and> n \<le> 222)
     then char_of (n + 32) else c)"

definition lower :: "string \<Rightarrow> string" where
  \<comment> \<open>\<^verbatim>\<open>str.lower()\<close>\<close>
  "lower s = map lower_char s"

definition strip :: "string \<Rightarrow> string" where
  \<comment> \<open>\<^verbatim>\<open>str.strip()\<close>\<close>
  "strip s = rev (dropWhile is_space (rev (dropWhile is_space s)))"

definition startswith :: "string \<Rightarrow> string \<Rightarrow> bool" where
  \<comment> \<open>\<^verbatim>\<open>s.startswith(p)\<close>\<close>
  "startswith s p = (take (length p) s = p)"

definition endswith :: "string \<Rightarrow> string \<Rightarrow> bool" where
  \<comment> \<open>\<^verbatim>\<open>s.endswith(p)\<close>\<close>
  "endswith s p = (length p \<le> length s \<and> drop (length s - length p) s = p)"

fun split_on :: "char \<Rightarrow> string \<Rightarrow> string list" where
  \<comment> \<open>\<^verbatim>\<open>s.split(d)\<close> for a one-character separator: never the empty list\<close>
  "split_on d [] = [[]]"
| "split_on d (c # cs) =
     (if c = d then [] # split_on d cs
      else (case split_on d cs of [] \<Rightarrow> [[c]] | l # ls \<Rightarrow> (c # l) # ls))"

fun find_from :: "string \<Rightarrow> string \<Rightarrow> nat \<Rightarrow> int" where
  \<comment> \<open>the index \<^verbatim>\<open>str.find\<close> returns, counted from offset \<open>i\<close>; \<open>-1\<close> when there is none\<close>
  "find_from [] p i = (if p = [] then int i else - 1)"
| "find_from (c # cs) p i =
     (if startswith (c # cs) p then int i else find_from cs p (Suc i))"

definition str_find :: "string \<Rightarrow> string \<Rightarrow> int" where
  \<comment> \<open>\<^verbatim>\<open>s.find(p)\<close>\<close>
  "str_find s p = find_from s p 0"

section \<open>Text-section extraction\<close>

subsection \<open>The section header\<close>

definition ci_prefix :: "string \<Rightarrow> string \<Rightarrow> bool" where
  \<comment> \<open>the lower-case literal \<open>kw\<close> matches at the start of \<open>s\<close> under \<^verbatim>\<open>re.IGNORECASE\<close>\<close>
  "ci_prefix kw s = (length kw \<le> length s \<and> lower (take (length kw) s) = kw)"

fun search_label :: "string \<Rightarrow> string \<Rightarrow> string option" where
  \<comment> \<open>\<^verbatim>\<open>re.search\<close> of \<^verbatim>\<open>(?:\*)?Label\<close>: the leftmost position where an optional asterisk and
      then the label match; returns the text after the label\<close>
  "search_label kw [] = (if kw = [] then Some [] else None)"
| "search_label kw (c # cs) =
     (if c = CHR ''*'' \<and> ci_prefix kw cs then Some (drop (length kw) cs)
      else if ci_prefix kw (c # cs) then Some (drop (length kw) (c # cs))
      else search_label kw cs)"

definition opt_secondary :: "string \<Rightarrow> string" where
  \<comment> \<open>the optional group \<^verbatim>\<open>(?:\s*/\s*\w+)?\<close>: the text left after it\<close>
  "opt_secondary s =
     (case dropWhile is_space s of
        [] \<Rightarrow> s
      | c # r \<Rightarrow>
          if c = CHR ''/'' then
            (case dropWhile is_space r of
               [] \<Rightarrow> s
             | w # r' \<Rightarrow> if is_word w then dropWhile is_word r' else s)
          else s)"

definition opt_char :: "char \<Rightarrow> string \<Rightarrow> string" where
  \<comment> \<open>an optional single character, \<^verbatim>\<open>(?:\*)?\<close> or \<^verbatim>\<open>:?\<close>\<close>
  "opt_char x s = (case s of [] \<Rightarrow> [] | c # r \<Rightarrow> if c = x then r else s)"

definition steps_header_end :: "string \<Rightarrow> string" where
  \<comment> \<open>the rest of \<^verbatim>\<open>steps_pattern\<close> after the label: \<^verbatim>\<open>(?:\s*/\s*\w+)?(?:\*)?:?\<close>\<close>
  "steps_header_end s = opt_char CHR '':'' (opt_char CHR ''*'' (opt_secondary s))"

definition requirements_header_end :: "string \<Rightarrow> string" where
  \<comment> \<open>the rest of \<^verbatim>\<open>requirements_pattern\<close> after the label: \<^verbatim>\<open>(?:\*)?:?\<close>\<close>
  "requirements_header_end s = opt_char CHR '':'' (opt_char CHR ''*'' s)"

subsection \<open>List items\<close>

definition ws_group :: "string \<Rightarrow> string option" where
  \<comment> \<open>\<^verbatim>\<open>\s+(.+)$\<close> on a text without line feed: group 1. The greedy \<^verbatim>\<open>\s+\<close> takes all the
      white space; when nothing is left it gives its last character back to the group.\<close>
  "ws_group s =
     (let ws = takeWhile is_space s; g = dropWhile is_space s in
      if ws = [] then None
      else if g \<noteq> [] then Some g
      else if 2 \<le> length ws then Some [last ws]
      else None)"

definition numbered_match :: "string \<Rightarrow> string option" where
  \<comment> \<open>\<^verbatim>\<open>re.match(r'^\d+\.\s+(.+)$', line)\<close>: group 1\<close>
  "numbered_match line =
     (if takeWhile is_digit line = [] then None
      else (case dropWhile is_digit line of
              [] \<Rightarrow> None
            | c # r \<Rightarrow> if c = CHR ''.'' then ws_group r else None))"

definition bullet_match :: "string \<Rightarrow> string option" where
  \<comment> \<open>\<^verbatim>\<open>re.match(r'^[-*]\s+(.+)$', line)\<close>: group 1\<close>
  "bullet_match line =
     (case line of
        [] \<Rightarrow> None
      | c # r \<Rightarrow> if c = CHR ''-'' \<or> c = CHR ''*'' then ws_group r else None)"

definition truthy :: "string option \<Rightarrow> bool" where
  \<comment> \<open>Python truth of a value that is \<^verbatim>\<open>None\<close> or a string\<close>
  "truthy t = (case t of None \<Rightarrow> False | Some s \<Rightarrow> s \<noteq> [])"

definition item_text :: "string \<Rightarrow> string option" where
  \<comment> \<open>the numbered item, else the bulleted item; \<^verbatim>\<open>None\<close> or the stripped text\<close>
  "item_text line =
     (let t = map_option strip (numbered_match line) in
      if truthy t then t
      else (case bullet_match line of None \<Rightarrow> t | Some g \<Rightarrow> Some (strip g)))"

definition is_section_header :: "string \<Rightarrow> bool" where
  \<comment> \<open>a stripped line that starts with an asterisk and ends with one or holds a colon\<close>
  "is_section_header line =
     (startswith line ''*'' \<and> (endswith line ''*'' \<or> CHR '':'' \<in> set line))"

definition unwrap :: "string \<Rightarrow> string" where
  \<comment> \<open>remove a leading Robot Framework continuation marker\<close>
  "unwrap line = (if startswith line ''...'' then strip (drop 3 line) else line)"

definition list_start :: "string \<Rightarrow> bool" where
  \<comment> \<open>\<^verbatim>\<open>line.startswith(('1', ..., '9', '-', '*'))\<close>\<close>
  "list_start line = (case line of [] \<Rightarrow> False | c # _ \<Rightarrow> c \<in> set ''123456789-*'')"

subsection \<open>Steps\<close>

definition step_entry :: "string \<Rightarrow> string \<times> string" where
  \<comment> \<open>step name and expected behaviour of an item text\<close>
  "step_entry t =
     (if CHR ''/'' \<in> set t then
        (strip (takeWhile (\<lambda>c. c \<noteq> CHR ''/'') t),
         strip (drop 1 (dropWhile (\<lambda>c. c \<noteq> CHR ''/'') t)))
      else (t, ''pass''))"

fun scan_steps :: "(string \<times> string) list \<Rightarrow> string list \<Rightarrow> (string \<times> string) list" where
  \<comment> \<open>the loop over the lines; the dictionary \<open>steps\<close> keeps insertion order\<close>
  "scan_steps steps [] = steps"
| "scan_steps steps (raw # ls) =
     (let line = strip raw in
      if is_section_header line then steps
      else if line = [] \<or> line = ''...'' then scan_steps steps ls
      else
        (let line = unwrap line in
         case item_text line of
           Some (c # t) \<Rightarrow>
             (let (step_name, expected_behavior) = step_entry (c # t)
              in scan_steps (AList.update step_name expected_behavior steps) ls)
         | _ \<Rightarrow>
             if steps \<noteq> [] \<and> \<not> list_start line then steps
             else scan_steps steps ls))"

definition extract_steps_from_documentation :: "string option \<Rightarrow> (string \<times> string) list" where
  "extract_steps_from_documentation doc_text =
     (case doc_text of
        None \<Rightarrow> []
      | Some doc \<Rightarrow>
          if doc = [] then []
          else (case search_label ''steps'' doc of
                  None \<Rightarrow> []
                | Some rest \<Rightarrow> scan_steps [] (split_on CHR 0x0A (steps_header_end rest))))"

subsection \<open>Requirements\<close>

fun scan_requirements :: "string list \<Rightarrow> string list \<Rightarrow> string list" where
  \<comment> \<open>the loop over the lines; a line without list marker is taken as it is, before the
      end-of-section test of the last branch is reached\<close>
  "scan_requirements requirements [] = requirements"
| "scan_requirements requirements (raw # ls) =
     (let line = strip raw in
      if is_section_header line then requirements
      else if line = [] \<or> line = ''...'' then scan_requirements requirements ls
      else
        (let line = unwrap line;
             t = item_text line;
             req_text = (if \<not> truthy t \<and> line \<noteq> [] then Some line else t) in
         case req_text of
           Some (c # r) \<Rightarrow> scan_requirements (requirements @ [c # r]) ls
         | _ \<Rightarrow>
             if requirements \<noteq> [] \<and> \<not> list_start line then requirements
             else scan_requirements requirements ls))"

definition extract_requirements_from_documentation :: "string option \<Rightarrow> string list" where
  "extract_requirements_from_documentation doc_text =
     (case doc_text of
        None \<Rightarrow> []
      | Some doc \<Rightarrow>
          if doc = [] then []
          else (case search_label ''requirements'' doc of
                  None \<Rightarrow> []
                | Some rest \<Rightarrow>
                    scan_requirements [] (split_on CHR 0x0A (requirements_header_end rest))))"

section \<open>Documents\<close>

text \<open>
  An \<^verbatim>\<open>xml.etree.ElementTree\<close> element: tag, attribute dictionary, text and children
  (\<open>etext\<close> is the attribute \<^verbatim>\<open>text\<close>). The tail text, which no function of the module
  reads, is left out.
\<close>

datatype xml =
  Element (tag: string) (attrib: "(string \<times> string) list") (etext: "string option")
    (children: "xml list")

fun descendants :: "xml \<Rightarrow> xml list" where
  \<comment> \<open>the elements below an element, in document order (\<^verbatim>\<open>iter()\<close> without the element)\<close>
  "descendants (Element t a x cs) = concat (map (\<lambda>c. c # descendants c) cs)"

definition get :: "xml \<Rightarrow> string \<Rightarrow> string option" where
  \<comment> \<open>\<^verbatim>\<open>elem.get(key)\<close>\<close>
  "get e k = map_of (attrib e) k"

definition get_default :: "xml \<Rightarrow> string \<Rightarrow> string \<Rightarrow> string" where
  \<comment> \<open>\<^verbatim>\<open>elem.get(key, default)\<close>\<close>
  "get_default e k d = (case get e k of None \<Rightarrow> d | Some v \<Rightarrow> v)"

definition findall :: "string \<Rightarrow> xml \<Rightarrow> xml list" where
  \<comment> \<open>\<^verbatim>\<open>elem.findall('t')\<close>: the children with that tag\<close>
  "findall t e = filter (\<lambda>c. tag c = t) (children e)"

definition findall_kw :: "string \<Rightarrow> xml \<Rightarrow> xml list" where
  \<comment> \<open>\<^verbatim>\<open>elem.findall('kw[@type="T"]')\<close>\<close>
  "findall_kw ty e = filter (\<lambda>c. get c ''type'' = Some ty) (findall ''kw'' e)"

definition find_first :: "xml list \<Rightarrow> xml option" where
  \<comment> \<open>\<^verbatim>\<open>find\<close> is the first element \<^verbatim>\<open>findall\<close> yields\<close>
  "find_first es = (case es of [] \<Rightarrow> None | e # _ \<Rightarrow> Some e)"

definition findall_desc :: "string \<Rightarrow> xml \<Rightarrow> xml list" where
  \<comment> \<open>\<^verbatim>\<open>elem.findall('.//t')\<close>\<close>
  "findall_desc t e = filter (\<lambda>c. tag c = t) (descendants e)"

definition setup_msgs :: "xml \<Rightarrow> xml list" where
  \<comment> \<open>\<^verbatim>\<open>elem.findall('.//kw[@type="SETUP"]//msg')\<close>: for every SETUP keyword below the
      element, at any depth, the messages below that keyword\<close>
  "setup_msgs e =
     concat (map (findall_desc ''msg'')
       (filter (\<lambda>k. get k ''type'' = Some ''SETUP'') (findall_desc ''kw'' e)))"

section \<open>Exceptions and configuration\<close>

datatype exn =
  ParseError string | AttributeError string | TypeError string | OSError string
  | OtherException string

fun message :: "exn \<Rightarrow> string" where
  \<comment> \<open>\<^verbatim>\<open>str(e)\<close>\<close>
  "message (ParseError m) = m"
| "message (AttributeError m) = m"
| "message (TypeError m) = m"
| "message (OSError m) = m"
| "message (OtherException m) = m"

definition none_has_no :: "string \<Rightarrow> string" where
  \<comment> \<open>the message of the AttributeError raised by an attribute access on \<^verbatim>\<open>None\<close>\<close>
  "none_has_no a =
     CHR 0x27 # ''NoneType'' @ CHR 0x27 # '' object has no attribute '' @ CHR 0x27 # a @ [CHR 0x27]"

text \<open>
  What \<^verbatim>\<open>pattern.search(text)\<close> gives for the compiled prefix pattern, which has one capture
  group: no match, the text of group 1, or a match in which group 1 took no part
  (\<^verbatim>\<open>match.group(1)\<close> is \<^verbatim>\<open>None\<close>).
\<close>

datatype group1 = NoMatch | Captured string | Unset

type_synonym pattern = "string \<Rightarrow> group1"

record config =
  debug :: bool
  filename_prefix_pattern :: "pattern option"

definition upper_char :: "char \<Rightarrow> char" where
  "upper_char c = (let n = (of_char c :: nat) in
     if (97 \<le> n \<and> n \<le> 122) \<or> (224 \<le> n \<and> n \<le> 246) \<or> (248 \<le> n \<and> n \<le> 254)
     then char_of (n - 32) else c)"

definition upper :: "string \<Rightarrow> string" where
  \<comment> \<open>\<^verbatim>\<open>str.upper()\<close>; the three characters below 256 whose upper case is no single
      character below 256 (181 and 255, and 223, which becomes \<^verbatim>\<open>SS\<close>) are kept\<close>
  "upper s = map upper_char s"

section \<open>Prefix resolution\<close>

fun search_msgs :: "pattern \<Rightarrow> xml list \<Rightarrow> exn + string option" where
  \<comment> \<open>the loop over messages: the first message with a text the pattern matches decides\<close>
  "search_msgs p [] = Inr None"
| "search_msgs p (msg # msgs) =
     (case etext msg of
        None \<Rightarrow> search_msgs p msgs
      | Some t \<Rightarrow>
          if t = [] then search_msgs p msgs
          else (case p t of
                  NoMatch \<Rightarrow> search_msgs p msgs
                | Captured g \<Rightarrow> Inr (Some (upper g))
                | Unset \<Rightarrow>
                    Inl (AttributeError (none_has_no ''upper''))))"

fun join :: "string \<Rightarrow> string list \<Rightarrow> string" where
  \<comment> \<open>\<^verbatim>\<open>sep.join(parts)\<close>\<close>
  "join sep [] = []"
| "join sep [p] = p"
| "join sep (p # q # ps) = p @ sep @ join sep (q # ps)"

definition parent_ids :: "string \<Rightarrow> string list" where
  \<comment> \<open>\<^verbatim>\<open>s1-s2-s3\<close> gives \<^verbatim>\<open>[s1-s2, s1]\<close>\<close>
  "parent_ids suite_id =
     (let parts = split_on CHR ''-'' suite_id
      in map (\<lambda>i. join ''-'' (take i parts)) (rev [1..<length parts]))"

definition find_suite :: "xml \<Rightarrow> string \<Rightarrow> xml option" where
  \<comment> \<open>\<^verbatim>\<open>root.find(".//suite[@id='...']")\<close>, for an id without quote characters\<close>
  "find_suite root i =
     find_first (filter (\<lambda>s. get s ''id'' = Some i) (findall_desc ''suite'' root))"

fun search_parents :: "pattern \<Rightarrow> xml \<Rightarrow> string list \<Rightarrow> exn + string option" where
  "search_parents p root [] = Inr None"
| "search_parents p root (parent_id # ids) =
     (case find_suite root parent_id of
        None \<Rightarrow> search_parents p root ids
      | Some parent_suite \<Rightarrow>
          (case search_msgs p (setup_msgs parent_suite) of
             Inr None \<Rightarrow> search_parents p root ids
           | r \<Rightarrow> r))"

definition extract_filename_prefix ::
  "config \<Rightarrow> xml \<Rightarrow> xml \<Rightarrow> xml option \<Rightarrow> exn + string option" where
  "extract_filename_prefix cfg test suite root =
     (case filename_prefix_pattern cfg of
        None \<Rightarrow> Inr None
      | Some p \<Rightarrow>
          (case search_msgs p (setup_msgs suite) of
             Inr None \<Rightarrow>
               (case (case root of
                        None \<Rightarrow> Inr None
                      | Some r \<Rightarrow> search_parents p r (parent_ids (get_default suite ''id'' [])))
                of
                  Inr None \<Rightarrow> search_msgs p (findall_desc ''msg'' test)
                | r \<Rightarrow> r)
           | r \<Rightarrow> r))"

section \<open>The environment\<close>

text \<open>
  What the module asks of the file system, of \<^verbatim>\<open>hashlib\<close> and of the external renderer.
  \<^item> \<open>parse path\<close>: \<^verbatim>\<open>ET.parse(path).getroot()\<close>, the root element or the exception raised;
  \<^item> \<open>log_file path\<close>: the companion report path of lines 268 to 274, when that file exists;
  \<^item> \<open>md5_hex s\<close>: \<^verbatim>\<open>hashlib.md5(s.encode('utf-8')).hexdigest()\<close>;
  \<^item> \<open>mkdir dir\<close>: the exception \<^verbatim>\<open>Path(dir).mkdir(exist_ok=True)\<close> raises, if any;
  \<^item> \<open>can_write path\<close>: whether the file at the path can be opened for writing;
  \<^item> \<open>rebot cmd\<close>: the outcome of \<^verbatim>\<open>subprocess.run(cmd, ...)\<close>.
\<close>

datatype run_result =
  Completed int string  \<comment> \<open>return code and standard error\<close>
| FileNotFoundError
| RunException string

record env =
  parse :: "string \<Rightarrow> exn + xml"
  log_file :: "string \<Rightarrow> string option"
  md5_hex :: "string \<Rightarrow> string"
  mkdir :: "string \<Rightarrow> exn option"
  can_write :: "string \<Rightarrow> bool"
  rebot :: "string list \<Rightarrow> run_result"

section \<open>Reading a chunk\<close>

datatype pyval =
  VNone | VBool bool | VInt int | VStr string | VList "string list"
  | VDict "(string \<times> string) list"

type_synonym chunk_data = "(string \<times> pyval) list"

definition path_name :: "string \<Rightarrow> string" where
  \<comment> \<open>\<^verbatim>\<open>Path(p).name\<close> on a POSIX path: the last component that is neither empty nor a dot\<close>
  "path_name p =
     (case rev (filter (\<lambda>c. c \<noteq> [] \<and> c \<noteq> ''.'') (split_on CHR ''/'' p)) of
        [] \<Rightarrow> []
      | n # _ \<Rightarrow> n)"

definition int_of_digits :: "string \<Rightarrow> int" where
  \<comment> \<open>\<^verbatim>\<open>int(s)\<close> on a string of decimal digits\<close>
  "int_of_digits ds = foldl (\<lambda>a c. 10 * a + (int (of_char c) - 48)) 0 ds"

definition filename_index :: "string \<Rightarrow> int" where
  \<comment> \<open>lines 264 to 266: \<^verbatim>\<open>re.match(r'^(\d+)_', filename)\<close>, else 0\<close>
  "filename_index xml_filepath =
     (let filename = path_name xml_filepath; ds = takeWhile is_digit filename in
      if ds \<noteq> [] \<and> startswith (dropWhile is_digit filename) ''_'' then int_of_digits ds
      else 0)"

fun normalize_source :: "string list \<Rightarrow> int \<Rightarrow> string \<Rightarrow> int \<times> string" where
  \<comment> \<open>the loop of lines 280 to 284 over the markers. Its state is the pair of the variables
      \<^verbatim>\<open>idx\<close> and \<^verbatim>\<open>test_source_normalized\<close>: the loop assigns the result of \<^verbatim>\<open>find\<close> to the
      variable \<^verbatim>\<open>idx\<close> that line 266 has set.\<close>
  "normalize_source [] idx test_source_normalized = (idx, test_source_normalized)"
| "normalize_source (marker # markers) idx test_source_normalized =
     (let idx = str_find test_source_normalized marker in
      if idx \<noteq> - 1 then (idx, drop (nat (idx + 1)) test_source_normalized)
      else normalize_source markers idx test_source_normalized)"

definition failure :: "string \<Rightarrow> string \<Rightarrow> chunk_data" where
  "failure xml_filepath err =
     [(''xml_file'', VStr xml_filepath), (''success'', VBool False), (''error'', VStr err)]"

definition read_chunk :: "config \<Rightarrow> env \<Rightarrow> string \<Rightarrow> exn + chunk_data" where
  \<comment> \<open>the body of the \<^verbatim>\<open>try\<close> statement of \<^verbatim>\<open>get_data_from_chunk\<close>\<close>
  "read_chunk cfg ev xml_filepath =
     (case parse ev xml_filepath of
        Inl e \<Rightarrow> Inl e
      | Inr root \<Rightarrow>
     (case find_first (findall_desc ''suite'' root) of
        None \<Rightarrow> Inr (failure xml_filepath ''No suite element found in XML'')
      | Some suite \<Rightarrow>
     (case find_first (findall ''test'' suite) of
        None \<Rightarrow> Inr (failure xml_filepath ''No test element found in XML'')
      | Some test \<Rightarrow>
          (let test_name = get_default test ''name'' [];
               test_id = get_default test ''id'' [];
               test_doc = (case find_first (findall ''doc'' test) of
                             None \<Rightarrow> []
                           | Some d \<Rightarrow> (case etext d of None \<Rightarrow> [] | Some t \<Rightarrow> t));
               test_source = get_default suite ''source'' [];
               test_steps = extract_steps_from_documentation (Some test_doc);
               test_requirements = extract_requirements_from_documentation (Some test_doc);
               test_status = (case find_first (findall ''status'' test) of
                                None \<Rightarrow> ''UNKNOWN''
                              | Some st \<Rightarrow> get_default st ''status'' ''UNKNOWN'');
               idx = filename_index xml_filepath;
               log_filepath = log_file ev xml_filepath;
               (idx, test_source_normalized) =
                  normalize_source [''/tests/'', ''/scripts/''] idx (lower test_source);
               checksum = md5_hex ev (test_name @ test_doc @ test_source_normalized)
           in case (case filename_prefix_pattern cfg of
                      None \<Rightarrow> Inr None
                    | Some _ \<Rightarrow> extract_filename_prefix cfg test suite (Some root))
              of
                Inl e \<Rightarrow> Inl e
              | Inr interface_prefix \<Rightarrow>
                  Inr ([(''index'', VInt idx),
                        (''test_name'', VStr test_name),
                        (''test_id'', VStr test_id),
                        (''status'', VStr test_status),
                        (''documentation'', VStr test_doc),
                        (''steps'', VDict test_steps),
                        (''requirements'', VList test_requirements),
                        (''source'', VStr test_source),
                        (''xml_file'', VStr xml_filepath),
                        (''checksum'', VStr checksum),
                        (''success'', VBool True),
                        (''interface'', (case interface_prefix of
                                           None \<Rightarrow> VNone
                                         | Some i \<Rightarrow> VStr i))]
                       @ (case log_filepath of
                            None \<Rightarrow> []
                          | Some l \<Rightarrow> if l = [] then [] else [(''log_file'', VStr l)]))))))"

definition get_data_from_chunk :: "config \<Rightarrow> env \<Rightarrow> string \<Rightarrow> chunk_data" where
  \<comment> \<open>the two handlers: \<^verbatim>\<open>except ET.ParseError\<close>, then \<^verbatim>\<open>except Exception\<close>\<close>
  "get_data_from_chunk cfg ev xml_filepath =
     (case read_chunk cfg ev xml_filepath of
        Inr result \<Rightarrow> result
      | Inl (ParseError m) \<Rightarrow> failure xml_filepath (''XML parsing error: '' @ m)
      | Inl e \<Rightarrow> failure xml_filepath (''Error reading chunk: '' @ message e))"

section \<open>Splitting a report\<close>

datatype file_content =
  Document xml  \<comment> \<open>the element tree written, before indentation\<close>
| Truncated     \<comment> \<open>a file opened for writing whose serialization failed\<close>

datatype event =
  \<comment> \<open>the calls of \<^verbatim>\<open>_debug_print\<close> in \<^verbatim>\<open>split_to_chunks\<close>\<close>
  Found nat
| Processing nat nat string "string option"
| Created_XML string
| Generated_log string
| Report_failed int
| Report_stderr string
| Rebot_not_found
| Report_error string nat

record run =
  files :: "(string \<times> file_content) list"   \<comment> \<open>the files written, in order\<close>
  commands :: "string list list"               \<comment> \<open>the renderer invocations, in order\<close>
  printed :: "event list"

definition debug_print :: "config \<Rightarrow> event list \<Rightarrow> run \<Rightarrow> run" where
  "debug_print cfg es r = (if debug cfg then r\<lparr>printed := printed r @ es\<rparr> else r)"

fun str_nat :: "nat \<Rightarrow> string" where
  \<comment> \<open>\<^verbatim>\<open>str(n)\<close> for the index\<close>
  "str_nat n =
     (if n < 10 then [char_of (48 + n)] else str_nat (n div 10) @ [char_of (48 + n mod 10)])"

declare str_nat.simps [simp del]

definition str_opt :: "string option \<Rightarrow> string" where
  \<comment> \<open>how an f-string formats a value that is a string or \<^verbatim>\<open>None\<close>\<close>
  "str_opt v = (case v of None \<Rightarrow> ''None'' | Some t \<Rightarrow> t)"

definition safe_name_of :: "string \<Rightarrow> string" where
  \<comment> \<open>line 471: spaces, slashes and backslashes become underscores\<close>
  "safe_name_of test_name =
     map (\<lambda>c. if c = CHR '' '' \<or> c = CHR ''/'' \<or> c = CHR 0x5C then CHR ''_'' else c) test_name"

definition chunk_stem :: "nat \<Rightarrow> string option \<Rightarrow> string \<Rightarrow> string option \<Rightarrow> string" where
  \<comment> \<open>the common part of the two file names of lines 472 to 475 and 557 to 560\<close>
  "chunk_stem idx prefix safe_name test_id =
     (if truthy prefix
      then str_nat idx @ ''_'' @ str_opt prefix @ ''_'' @ safe_name @ ''_'' @ str_opt test_id
      else str_nat idx @ ''_'' @ safe_name @ ''_'' @ str_opt test_id)"

definition path_join :: "string \<Rightarrow> string \<Rightarrow> string" where
  \<comment> \<open>\<^verbatim>\<open>str(output_path / filename)\<close> for a plain directory path\<close>
  "path_join dir filename = dir @ ''/'' @ filename"

definition status_counts :: "string option \<Rightarrow> string \<times> string \<times> string" where
  \<comment> \<open>lines 517 to 519: \<^verbatim>\<open>pass_count\<close>, \<^verbatim>\<open>fail_count\<close>, \<^verbatim>\<open>skip_count\<close>\<close>
  "status_counts test_status =
     (if test_status = Some ''PASS'' then ''1'' else ''0'',
      if test_status = Some ''FAIL'' then ''1'' else ''0'',
      if test_status = Some ''SKIP'' then ''1'' else ''0'')"

definition count_attrib :: "string \<times> string \<times> string \<Rightarrow> (string \<times> string) list" where
  "count_attrib c = (case c of (p, f, s) \<Rightarrow> [(''pass'', p), (''fail'', f), (''skip'', s)])"

definition statistics :: "xml \<Rightarrow> xml \<Rightarrow> string option \<Rightarrow> exn + xml" where
  \<comment> \<open>lines 512 to 544. The suite entry takes \<^verbatim>\<open>suite.get('name')\<close> and \<^verbatim>\<open>suite.get('id')\<close>;
      an attribute that is \<^verbatim>\<open>None\<close> makes \<^verbatim>\<open>new_tree.write\<close> raise a TypeError, which the
      model reports here.\<close>
  "statistics suite test test_status =
     (let counts = status_counts test_status;
          total = Element ''total'' [] None
                    [Element ''stat'' (count_attrib counts) (Some ''All Tests'') []];
          tag_stats = Element ''tag'' [] None
                    (map (\<lambda>t. Element ''stat'' (count_attrib counts) (etext t) [])
                       (findall ''tag'' test))
      in case (get suite ''name'', get suite ''id'') of
           (Some n, Some i) \<Rightarrow>
             Inr (Element ''statistics'' [] None
                   [total, tag_stats,
                    Element ''suite'' [] None
                      [Element ''stat'' ([(''name'', n), (''id'', i)] @ count_attrib counts)
                         None []]])
         | _ \<Rightarrow> Inl (TypeError ''cannot serialize None (type NoneType)''))"

definition new_suite :: "xml \<Rightarrow> xml \<Rightarrow> xml" where
  \<comment> \<open>lines 487 to 507: the attributes of the suite, then copies of its source, SETUP
      keywords, the test, TEARDOWN keywords and documentation\<close>
  "new_suite suite test =
     Element ''suite'' (attrib suite) None
       (findall ''source'' suite @ findall_kw ''SETUP'' suite @ [test]
        @ findall_kw ''TEARDOWN'' suite @ findall ''doc'' suite)"

definition new_root :: "xml \<Rightarrow> xml \<Rightarrow> xml \<Rightarrow> string option \<Rightarrow> exn + xml" where
  \<comment> \<open>the standalone document, or the exception of its serialization\<close>
  "new_root root suite test test_status =
     (case statistics suite test test_status of
        Inl e \<Rightarrow> Inl e
      | Inr stats \<Rightarrow>
          Inr (Element ''robot'' (attrib root) None
                [new_suite suite test, stats, Element ''errors'' [] None []]))"

definition render :: "config \<Rightarrow> env \<Rightarrow> nat \<Rightarrow> string \<Rightarrow> string \<Rightarrow> string \<Rightarrow> run \<Rightarrow> run" where
  \<comment> \<open>lines 563 to 592: the renderer is called and every outcome is only printed\<close>
  "render cfg ev idx test_name log_filepath xml_filepath r =
     (let cmd = [''rebot'', ''--output'', ''NONE'', ''--log'', log_filepath, ''--name'', test_name,
                 ''--NoStatusRC'', xml_filepath];
          r = r\<lparr>commands := commands r @ [cmd]\<rparr>
      in case rebot ev cmd of
           Completed returncode stderr \<Rightarrow>
             if returncode = 0 then debug_print cfg [Generated_log log_filepath] r
             else debug_print cfg
                    (Report_failed returncode # (if stderr = [] then [] else [Report_stderr stderr])) r
         | FileNotFoundError \<Rightarrow> debug_print cfg [Rebot_not_found] r
         | RunException m \<Rightarrow> debug_print cfg [Report_error m idx] r)"

definition process_test ::
  "config \<Rightarrow> env \<Rightarrow> xml \<Rightarrow> string \<Rightarrow> nat \<Rightarrow> nat \<Rightarrow> xml \<Rightarrow> xml \<Rightarrow> run \<Rightarrow> run \<times> exn option" where
  \<comment> \<open>the body of the loop of line 463 for one pair; an exception leaves the loop and the
      function (only the renderer call stands in a \<^verbatim>\<open>try\<close> statement)\<close>
  "process_test cfg ev root output_dir n idx suite test r =
     (let test_name = get test ''name''; test_id = get test ''id'' in
      case extract_filename_prefix cfg test suite (Some root) of
        Inl e \<Rightarrow> (r, Some e)
      | Inr prefix \<Rightarrow>
     (case test_name of
        None \<Rightarrow> (r, Some (AttributeError (none_has_no ''replace'')))
      | Some name \<Rightarrow>
          (let stem = chunk_stem idx prefix (safe_name_of name) test_id;
               xml_filepath = path_join output_dir (stem @ ''.xml'');
               r = debug_print cfg
                     [Processing idx n name (if truthy prefix then prefix else None)] r
           in case find_first (findall ''status'' test) of
                None \<Rightarrow> (r, Some (AttributeError (none_has_no ''get'')))
              | Some st \<Rightarrow>
                  if \<not> can_write ev xml_filepath then (r, Some (OSError xml_filepath))
                  else
                    (case new_root root suite test (get st ''status'') of
                       Inl e \<Rightarrow> (r\<lparr>files := files r @ [(xml_filepath, Truncated)]\<rparr>, Some e)
                     | Inr doc \<Rightarrow>
                         (let r = r\<lparr>files := files r @ [(xml_filepath, Document doc)]\<rparr>;
                              r = debug_print cfg [Created_XML xml_filepath] r;
                              log_filepath = path_join output_dir (stem @ ''_log.html'')
                          in (render cfg ev idx name log_filepath xml_filepath r, None))))))"

fun split_loop ::
  "config \<Rightarrow> env \<Rightarrow> xml \<Rightarrow> string \<Rightarrow> nat \<Rightarrow> nat \<Rightarrow> (xml \<times> xml) list \<Rightarrow> run \<Rightarrow> run \<times> exn option" where
  \<comment> \<open>\<^verbatim>\<open>for idx, (suite, test) in enumerate(test_cases, 1)\<close>\<close>
  "split_loop cfg ev root output_dir n idx [] r = (r, None)"
| "split_loop cfg ev root output_dir n idx ((suite, test) # rest) r =
     (case process_test cfg ev root output_dir n idx suite test r of
        (r', Some e) \<Rightarrow> (r', Some e)
      | (r', None) \<Rightarrow> split_loop cfg ev root output_dir n (Suc idx) rest r')"

definition test_cases_of :: "xml \<Rightarrow> (xml \<times> xml) list" where
  \<comment> \<open>lines 455 to 458: the (suite, test) pairs in document order\<close>
  "test_cases_of root =
     concat (map (\<lambda>suite. map (Pair suite) (findall ''test'' suite)) (findall_desc ''suite'' root))"

definition split_to_chunks :: "config \<Rightarrow> env \<Rightarrow> string \<Rightarrow> string \<Rightarrow> run \<times> exn option" where
  \<comment> \<open>the files written, the renderer calls and the output of a run, with the exception
      that ended it, if any\<close>
  "split_to_chunks cfg ev output_xml_path output_dir =
     (let r0 = \<lparr>files = [], commands = [], printed = []\<rparr> in
      case mkdir ev output_dir of
        Some e \<Rightarrow> (r0, Some e)
      | None \<Rightarrow>
          (case parse ev output_xml_path of
             Inl e \<Rightarrow> (r0, Some e)
           | Inr root \<Rightarrow>
               (let test_cases = test_cases_of root;
                    r = debug_print cfg [Found (length test_cases)] r0
                in split_loop cfg ev root output_dir (length test_cases) 1 test_cases r)))"

section \<open>Notions of the statements\<close>

subsection \<open>Occurrences of a label\<close>

definition occurs_at :: "string \<Rightarrow> string \<Rightarrow> nat \<Rightarrow> bool" where
  \<comment> \<open>the lower-case word \<open>kw\<close> stands in \<open>doc\<close> at offset \<open>i\<close>, in any mix of cases\<close>
  "occurs_at kw doc i = (i + length kw \<le> length doc \<and> lower (take (length kw) (drop i doc)) = kw)"

subsection \<open>The item lines of a section\<close>

fun section_items :: "bool \<Rightarrow> string list \<Rightarrow> string list" where
  \<comment> \<open>the texts of the numbered or bulleted item lines of a Steps section: the section ends
      at a line that looks like an emphasized header and, once an item has been seen
      (the flag), at a non-empty line that is no item and starts with none of the list
      markers\<close>
  "section_items seen [] = []"
| "section_items seen (raw # ls) =
     (let line = strip raw in
      if is_section_header line then []
      else if line = [] \<or> line = ''...'' then section_items seen ls
      else (case item_text (unwrap line) of
              Some (c # t) \<Rightarrow> (c # t) # section_items True ls
            | _ \<Rightarrow> if seen \<and> \<not> list_start (unwrap line) then [] else section_items seen ls))"

definition step_name :: "string \<Rightarrow> string" where
  \<comment> \<open>the key under which an item text is stored\<close>
  "step_name t = fst (step_entry t)"

definition put_step :: "(string \<times> string) list \<Rightarrow> string \<Rightarrow> (string \<times> string) list" where
  \<comment> \<open>\<^verbatim>\<open>steps[step_name] = expected_behavior\<close> for an item text\<close>
  "put_step d t = AList.update (step_name t) (snd (step_entry t)) d"

subsection \<open>Pairs that can be split\<close>

definition splittable :: "config \<Rightarrow> xml \<Rightarrow> xml \<times> xml \<Rightarrow> bool" where
  \<comment> \<open>nothing that the loop body needs of the pair is missing: the name and the status
      element of the test, the name and the id of the suite, and a prefix search that
      raises no exception\<close>
  "splittable cfg root tc =
     (case tc of (suite, test) \<Rightarrow>
        get test ''name'' \<noteq> None \<and> findall ''status'' test \<noteq> [] \<and>
        get suite ''name'' \<noteq> None \<and> get suite ''id'' \<noteq> None \<and>
        \<not> isl (extract_filename_prefix cfg test suite (Some root)))"

section \<open>Example documents\<close>

definition status_elem :: "string \<Rightarrow> xml" where
  "status_elem s = Element ''status'' [(''status'', s)] None []"

definition msg_elem :: "string \<Rightarrow> xml" where
  "msg_elem t = Element ''msg'' [] (Some t) []"

definition kw_elem :: "string \<Rightarrow> xml list \<Rightarrow> xml" where
  "kw_elem ty body = Element ''kw'' [(''name'', ''Connect''), (''type'', ty)] None body"

definition test_elem :: "string \<Rightarrow> string \<Rightarrow> xml list \<Rightarrow> xml" where
  "test_elem i n body = Element ''test'' [(''id'', i), (''name'', n)] None body"

definition suite_elem :: "string \<Rightarrow> string \<Rightarrow> string \<Rightarrow> xml list \<Rightarrow> xml" where
  "suite_elem i n src body = Element ''suite'' [(''id'', i), (''name'', n), (''source'', src)] None body"

definition example_test :: xml where
  \<comment> \<open>a passing test with a documentation and two tags\<close>
  "example_test =
     test_elem ''s1-t1'' ''Login''
       [Element ''doc'' [] (Some ''Checks login.'') [],
        Element ''tag'' [] (Some ''smoke'') [],
        Element ''tag'' [] (Some ''auth'') [],
        status_elem ''PASS'']"

definition example_chunk :: "string \<Rightarrow> xml" where
  \<comment> \<open>a standalone document whose suite has the given source path\<close>
  "example_chunk src = Element ''robot'' [] None [suite_elem ''s1'' ''Login'' src [example_test]]"

definition example_env :: "(string \<Rightarrow> string) \<Rightarrow> (string \<Rightarrow> exn + xml) \<Rightarrow> env" where
  \<comment> \<open>an environment without report files, where every write and every rendering succeeds\<close>
  "example_env h prs =
     \<lparr>parse = prs, log_file = (\<lambda>_. None), md5_hex = h, mkdir = (\<lambda>_. None),
      can_write = (\<lambda>_. True), rebot = (\<lambda>_. Completed 0 [])\<rparr>"

definition no_prefix :: config where
  "no_prefix = \<lparr>debug = True, filename_prefix_pattern = None\<rparr>"

definition empty_run :: run where
  "empty_run = \<lparr>files = [], commands = [], printed = []\<rparr>"

fun capture_word :: "string \<Rightarrow> pattern" where
  \<comment> \<open>the compiled pattern \<^verbatim>\<open>lit(\w+)\<close> for a literal text without special characters: the
      leftmost place where the literal is followed by a word character, and the word there\<close>
  "capture_word lit [] = NoMatch"
| "capture_word lit (c # cs) =
     (let w = takeWhile is_word (drop (length lit) (c # cs)) in
      if startswith (c # cs) lit \<and> w \<noteq> [] then Captured w else capture_word lit cs)"

definition session_prefix :: config where
  \<comment> \<open>a configuration with the prefix pattern \<^verbatim>\<open>session=(\w+)\<close>\<close>
  "session_prefix = \<lparr>debug = True, filename_prefix_pattern = Some (capture_word ''session='')\<rparr>"

definition web_test :: xml where
  \<comment> \<open>a test without setup whose keyword logs the session it opens\<close>
  "web_test =
     test_elem ''s1-t1'' ''Web''
       [kw_elem ''KEYWORD'' [msg_elem ''session=web''], status_elem ''PASS'']"

definition db_test :: xml where
  \<comment> \<open>a test whose own setup logs the session it opens\<close>
  "db_test =
     test_elem ''s1-t2'' ''Db''
       [kw_elem ''SETUP'' [msg_elem ''session=db''], status_elem ''PASS'']"

definition session_suite :: xml where
  \<comment> \<open>a suite without setup of its own that holds the two tests\<close>
  "session_suite = suite_elem ''s1'' ''Sessions'' ''/repo/tests/sessions.robot'' [db_test, web_test]"

definition session_report :: xml where
  "session_report = Element ''robot'' [] None [session_suite]"

definition broken_test :: xml where
  \<comment> \<open>a test without status element\<close>
  "broken_test = test_elem ''s1-t1'' ''Login'' []"

definition logout_test :: xml where
  "logout_test = test_elem ''s1-t2'' ''Logout'' [status_elem ''FAIL'']"

definition broken_suite :: xml where
  "broken_suite = suite_elem ''s1'' ''Account'' ''/repo/tests/account.robot'' [broken_test, logout_test]"

definition broken_report :: xml where
  \<comment> \<open>a report whose first test cannot be split and whose second test can\<close>
  "broken_report = Element ''robot'' [] None [broken_suite]"

section \<open>Properties\<close>

subsection \<open>Items of the Steps section\<close>

lemma item_text_Nil: "item_text [] = None"
  by (simp add: item_text_def numbered_match_def bullet_match_def truthy_def)

lemma unwrap_Nil: "unwrap [] = []"
  by (simp add: unwrap_def startswith_def)

lemma unwrap_dots: "unwrap ''...'' = []"
  by (simp add: unwrap_def startswith_def strip_def)

lemma scan_steps_item:
  assumes "\<not> is_section_header (strip raw)" and "item_text (unwrap (strip raw)) = Some t"
    and "t \<noteq> []"
  shows "scan_steps steps (raw # ls) =
           scan_steps (AList.update (fst (step_entry t)) (snd (step_entry t)) steps) ls"
proof -
  have "strip raw \<noteq> []" using assms(2) by (auto simp: unwrap_Nil item_text_Nil)
  moreover have "strip raw \<noteq> ''...''" using assms(2) by (auto simp: unwrap_dots item_text_Nil)
  moreover obtain c t' where "t = c # t'" using assms(3) by (cases t) auto
  ultimately show ?thesis using assms(1,2)
    by (simp add: Let_def split: prod.splits)
qed

lemma step_entry_plain: "CHR ''/'' \<notin> set t \<Longrightarrow> step_entry t = (t, ''pass'')"
  by (simp add: step_entry_def)

lemma takeWhile_upto: "x \<notin> set l \<Longrightarrow> takeWhile (\<lambda>c. c \<noteq> x) (l @ x # r) = l"
  by (induction l) auto

lemma dropWhile_upto: "x \<notin> set l \<Longrightarrow> dropWhile (\<lambda>c. c \<noteq> x) (l @ x # r) = x # r"
  by (induction l) auto

lemma step_entry_slash:
  "CHR ''/'' \<notin> set l \<Longrightarrow> step_entry (l @ CHR ''/'' # r) = (strip l, strip r)"
  by (simp add: step_entry_def takeWhile_upto dropWhile_upto)

subsection \<open>The end of the Requirements section\<close>

text \<open>
  The loop over the lines of a Requirements section stops at a line that looks like an
  emphasized header and nowhere else: every other line that is not blank is taken as a
  requirement, so the end-of-section test of the last branch is never reached.
\<close>

lemma dropWhile_rev_Nil:
  "(d \<noteq> [] \<Longrightarrow> \<not> P (hd d)) \<Longrightarrow> dropWhile P (rev d) = [] \<longleftrightarrow> d = []"
  by (cases d) (auto simp: dropWhile_eq_Nil_conv)

lemma strip_Nil_iff: "strip s = [] \<longleftrightarrow> (\<forall>c \<in> set s. is_space c)"
proof -
  have "dropWhile is_space (rev (dropWhile is_space s)) = [] \<longleftrightarrow> dropWhile is_space s = []"
    by (rule dropWhile_rev_Nil) (rule hd_dropWhile)
  then show ?thesis by (simp add: strip_def dropWhile_eq_Nil_conv)
qed

lemma last_strip: "strip s \<noteq> [] \<Longrightarrow> \<not> is_space (last (strip s))"
proof -
  assume a: "strip s \<noteq> []"
  let ?d = "dropWhile is_space (rev (dropWhile is_space s))"
  have "?d \<noteq> []" using a by (simp add: strip_def)
  then have "\<not> is_space (hd ?d)" by (rule hd_dropWhile)
  moreover have "last (strip s) = hd ?d" using \<open>?d \<noteq> []\<close> by (simp add: strip_def last_rev)
  ultimately show ?thesis by simp
qed

lemma unwrap_nonempty:
  assumes "strip raw \<noteq> []" and "strip raw \<noteq> ''...''"
  shows "unwrap (strip raw) \<noteq> []"
proof (cases "startswith (strip raw) ''...''")
  case False
  then show ?thesis using assms(1) by (simp add: unwrap_def)
next
  case True
  let ?l = "strip raw"
  have t: "take 3 ?l = ''...''" using True by (simp add: startswith_def numeral_3_eq_3)
  have "drop 3 ?l \<noteq> []"
  proof
    assume "drop 3 ?l = []"
    then have "?l = take 3 ?l" by (metis append_Nil2 append_take_drop_id)
    then show False using t assms(2) by simp
  qed
  then have "last (drop 3 ?l) = last ?l" by simp
  then have "\<not> is_space (last (drop 3 ?l))" using last_strip [OF assms(1)] by simp
  then have "\<exists>c \<in> set (drop 3 ?l). \<not> is_space c"
    using \<open>drop 3 ?l \<noteq> []\<close> last_in_set by blast
  then have "strip (drop 3 ?l) \<noteq> []" by (simp add: strip_Nil_iff)
  then show ?thesis using True by (simp add: unwrap_def)
qed

lemma truthy_nonempty: "truthy t \<Longrightarrow> \<exists>c r. t = Some (c # r)"
  by (cases t) (auto simp: truthy_def neq_Nil_conv)

lemma scan_requirements_takes_line:
  assumes "\<not> is_section_header (strip raw)" and "strip raw \<noteq> []" and "strip raw \<noteq> ''...''"
  shows "\<exists>t. t \<noteq> [] \<and> scan_requirements rs (raw # ls) = scan_requirements (rs @ [t]) ls"
proof -
  let ?l = "unwrap (strip raw)"
  have ne: "?l \<noteq> []" using unwrap_nonempty [OF assms(2,3)] .
  show ?thesis
  proof (cases "truthy (item_text ?l)")
    case True
    then obtain c r where "item_text ?l = Some (c # r)" using truthy_nonempty by blast
    then show ?thesis using assms True by (auto simp: Let_def)
  next
    case False
    obtain c r where "?l = c # r" using ne by (cases ?l) auto
    then show ?thesis using assms False by (auto simp: Let_def)
  qed
qed

text \<open>
  Claim C3. On the documentation \<^verbatim>\<open>Requirements:\n- REQ-1\n- REQ-2\nNotes: n/a\<close> the
  extraction is claimed to return the two requirements and to stop before the last line.
  The loop takes every non-empty line without list marker as a requirement before it reaches
  its end-of-section test, so the line \<^verbatim>\<open>Notes: n/a\<close> is returned as a third requirement.
\<close>

theorem requirements_notes_line:
  "extract_requirements_from_documentation
     (Some (''Requirements:'' @ CHR 0x0A # ''- REQ-1'' @ CHR 0x0A # ''- REQ-2''
            @ CHR 0x0A # ''Notes: n/a''))
   = [''REQ-1'', ''REQ-2'', ''Notes: n/a'']"
  by code_simp

subsection \<open>The first occurrence of a label\<close>

lemma occurs_at_ci_prefix: "kw \<noteq> [] \<Longrightarrow> occurs_at kw doc i \<longleftrightarrow> ci_prefix kw (drop i doc)"
  by (cases kw) (auto simp: occurs_at_def ci_prefix_def)

lemma lower_star: "lower_char CHR ''*'' = CHR ''*''"
  by (simp add: lower_char_def)

lemma ci_prefix_star:
  assumes "kw \<noteq> []" "hd kw \<noteq> CHR ''*''" shows "\<not> ci_prefix kw (CHR ''*'' # cs)"
proof
  assume "ci_prefix kw (CHR ''*'' # cs)"
  then have "lower (take (length kw) (CHR ''*'' # cs)) = kw" by (simp add: ci_prefix_def)
  moreover obtain k ks where "kw = k # ks" using assms(1) by (cases kw) auto
  ultimately have "k = CHR ''*''" by (simp add: lower_def lower_star)
  then show False using assms(2) \<open>kw = k # ks\<close> by simp
qed

lemma search_label_first:
  assumes "kw \<noteq> []" "hd kw \<noteq> CHR ''*''"
  shows "occurs_at kw doc i \<Longrightarrow> (\<forall>k<i. \<not> occurs_at kw doc k) \<Longrightarrow>
         search_label kw doc = Some (drop (i + length kw) doc)"
proof (induction doc arbitrary: i)
  case Nil
  then show ?case using assms(1) by (simp add: occurs_at_def)
next
  case (Cons c cs)
  show ?case
  proof (cases i)
    case 0
    then have p: "ci_prefix kw (c # cs)" using Cons.prems(1) by (simp add: occurs_at_ci_prefix assms)
    then have "c \<noteq> CHR ''*''" using ci_prefix_star [OF assms] by auto
    then show ?thesis using p 0 by simp
  next
    case (Suc j)
    have n0: "\<not> ci_prefix kw (c # cs)"
      using Cons.prems(2) Suc by (auto simp: occurs_at_ci_prefix assms dest: spec [of _ 0])
    have oj: "occurs_at kw cs j" using Cons.prems(1) Suc by (simp add: occurs_at_ci_prefix assms)
    have nj: "\<forall>k<j. \<not> occurs_at kw cs k"
    proof (intro allI impI)
      fix k assume "k < j"
      then have "Suc k < i" using Suc by simp
      then have "\<not> occurs_at kw (c # cs) (Suc k)" using Cons.prems(2) by blast
      then show "\<not> occurs_at kw cs k" by (simp add: occurs_at_ci_prefix assms)
    qed
    show ?thesis
    proof (cases "c = CHR ''*'' \<and> ci_prefix kw cs")
      case True
      then have "occurs_at kw cs 0" by (simp add: occurs_at_ci_prefix assms)
      then have "j = 0" using nj by (cases j) auto
      then show ?thesis using True Suc by simp
    next
      case False
      then have "search_label kw (c # cs) = search_label kw cs" using n0 by auto
      then show ?thesis using Cons.IH [OF oj nj] Suc by simp
    qed
  qed
qed


lemma occurs_nonempty: "kw \<noteq> [] \<Longrightarrow> occurs_at kw doc i \<Longrightarrow> doc \<noteq> []"
  by (auto simp: occurs_at_def)


subsection \<open>The loop as a sequence of dictionary updates\<close>

lemma scan_steps_fold:
  "scan_steps steps ls = foldl put_step steps (section_items (steps \<noteq> []) ls)"
proof (induction ls arbitrary: steps)
  case Nil
  then show ?case by simp
next
  case (Cons raw ls)
  have ne: "AList.update k v steps \<noteq> []" for k v
    by (cases steps) auto
  show ?case
    by (simp add: Let_def Cons.IH put_step_def step_name_def ne
        split: option.splits list.splits prod.splits)
qed


lemma put_step_keys:
  "map fst (put_step d t) = (if step_name t \<in> set (map fst d) then map fst d else map fst d @ [step_name t])"
  by (simp add: put_step_def update_keys)



lemma remdups_later: "k \<in> set zs \<Longrightarrow> remdups (ws @ k # zs) = remdups (ws @ zs)"
  by (induction ws) auto

lemma fold_keys:
  "distinct (map fst d) \<Longrightarrow>
   map fst (foldl put_step d ts) = rev (remdups (rev (map fst d @ map step_name ts)))"
proof (induction ts arbitrary: d)
  case Nil
  then show ?case by (simp add: distinct_remdups_id)
next
  case (Cons t ts)
  have d': "distinct (map fst (put_step d t))"
    using Cons.prems by (simp add: put_step_def distinct_update)
  show ?case
  proof (cases "step_name t \<in> set (map fst d)")
    case True
    then have "remdups (rev (map step_name ts) @ step_name t # rev (map fst d))
             = remdups (rev (map step_name ts) @ rev (map fst d))"
      by (intro remdups_later) simp
    then show ?thesis using Cons.IH [OF d'] put_step_keys [of d t] True by simp
  next
    case False
    then show ?thesis using Cons.IH [OF d'] put_step_keys [of d t] by simp
  qed
qed

lemma fold_values:
  "map_of (foldl put_step d ts) = map_of d ++ map_of (rev (map step_entry ts))"
proof (induction ts arbitrary: d)
  case Nil
  then show ?case by simp
next
  case (Cons t ts)
  let ?M = "map_of (rev (map step_entry ts))"
  have a: "map_of (put_step d t) = (map_of d)(step_name t \<mapsto> snd (step_entry t))"
    by (simp add: put_step_def update_conv')
  have b: "map_of (rev (map step_entry (t # ts))) = [step_name t \<mapsto> snd (step_entry t)] ++ ?M"
    by (simp add: step_name_def)
  have c: "(m(k \<mapsto> v)) ++ n = m ++ ([k \<mapsto> v] ++ n)" for m n :: "string \<rightharpoonup> string" and k v
    by (rule ext) (simp add: map_add_def split: option.splits)
  have "map_of (foldl put_step d (t # ts)) = map_of (put_step d t) ++ ?M"
    using Cons.IH [of "put_step d t"] by simp
  also have "\<dots> = map_of d ++ ([step_name t \<mapsto> snd (step_entry t)] ++ ?M)"
    unfolding a by (rule c)
  finally show ?case unfolding b .
qed

subsection \<open>Where a section starts\<close>

text \<open>
  Claim C10. The Steps extraction starts at the first occurrence of the bare word
  \<^verbatim>\<open>steps\<close>, in any mix of cases and anywhere in the text, and the Requirements extraction
  at the first occurrence of \<^verbatim>\<open>requirements\<close>: the lines scanned are those of the text after
  that occurrence and after the optional rest of the header. So \<^verbatim>\<open>Footsteps\<close> and
  \<^verbatim>\<open>follow these steps below\<close> start a Steps section whose items are extracted, and
  \<^verbatim>\<open>No requirements here\<close> starts a Requirements section.
\<close>

theorem section_starts_at_first_occurrence:
  "(occurs_at ''steps'' doc i \<and> (\<forall>k<i. \<not> occurs_at ''steps'' doc k) \<longrightarrow>
      extract_steps_from_documentation (Some doc)
        = scan_steps [] (split_on CHR 0x0A (steps_header_end (drop (i + 5) doc)))) \<and>
   (occurs_at ''requirements'' doc j \<and> (\<forall>k<j. \<not> occurs_at ''requirements'' doc k) \<longrightarrow>
      extract_requirements_from_documentation (Some doc)
        = scan_requirements [] (split_on CHR 0x0A (requirements_header_end (drop (j + 12) doc)))) \<and>
   extract_steps_from_documentation (Some (''Footsteps'' @ CHR 0x0A # ''1. Walk'')) = [(''Walk'', ''pass'')] \<and>
   extract_steps_from_documentation (Some (''follow these steps below'' @ CHR 0x0A # ''- Walk / arrive''))
     = [(''Walk'', ''arrive'')] \<and>
   extract_requirements_from_documentation (Some (''No requirements here'' @ CHR 0x0A # ''- REQ-9''))
     = [''here'', ''REQ-9'']"
proof -
  have s: "occurs_at ''steps'' doc i \<Longrightarrow> (\<forall>k<i. \<not> occurs_at ''steps'' doc k) \<Longrightarrow>
      extract_steps_from_documentation (Some doc)
        = scan_steps [] (split_on CHR 0x0A (steps_header_end (drop (i + 5) doc)))"
    using search_label_first [of "''steps''" doc i] occurs_nonempty [of "''steps''" doc i]
    by (simp add: extract_steps_from_documentation_def eval_nat_numeral)
  have r: "occurs_at ''requirements'' doc j \<Longrightarrow> (\<forall>k<j. \<not> occurs_at ''requirements'' doc k) \<Longrightarrow>
      extract_requirements_from_documentation (Some doc)
        = scan_requirements [] (split_on CHR 0x0A (requirements_header_end (drop (j + 12) doc)))"
    using search_label_first [of "''requirements''" doc j] occurs_nonempty [of "''requirements''" doc j]
    by (simp add: extract_requirements_from_documentation_def eval_nat_numeral)
  have e1: "extract_steps_from_documentation (Some (''Footsteps'' @ CHR 0x0A # ''1. Walk'')) = [(''Walk'', ''pass'')]"
    by code_simp
  have e2: "extract_steps_from_documentation (Some (''follow these steps below'' @ CHR 0x0A # ''- Walk / arrive''))
     = [(''Walk'', ''arrive'')]"
    by code_simp
  have e3: "extract_requirements_from_documentation (Some (''No requirements here'' @ CHR 0x0A # ''- REQ-9''))
     = [''here'', ''REQ-9'']"
    by code_simp
  show ?thesis using s r e1 e2 e3 by blast
qed


theorem section_starts_at_first_occurrence_witness:
  "occurs_at ''steps'' (''Footsteps'' @ CHR 0x0A # ''1. Walk'') 4 \<and>
   \<not> occurs_at ''steps'' (''Footsteps'' @ CHR 0x0A # ''1. Walk'') 0 \<and>
   \<not> occurs_at ''steps'' (''Footsteps'' @ CHR 0x0A # ''1. Walk'') 1 \<and>
   \<not> occurs_at ''steps'' (''Footsteps'' @ CHR 0x0A # ''1. Walk'') 2 \<and>
   \<not> occurs_at ''steps'' (''Footsteps'' @ CHR 0x0A # ''1. Walk'') 3 \<and>
   extract_steps_from_documentation (Some (''Footsteps'' @ CHR 0x0A # ''1. Walk''))
     = scan_steps [] (split_on CHR 0x0A
         (steps_header_end (drop (4 + 5) (''Footsteps'' @ CHR 0x0A # ''1. Walk'')))) \<and>
   occurs_at ''requirements'' (''*Requirements*:'' @ CHR 0x0A # ''- REQ-9'') 1 \<and>
   \<not> occurs_at ''requirements'' (''*Requirements*:'' @ CHR 0x0A # ''- REQ-9'') 0 \<and>
   extract_requirements_from_documentation (Some (''*Requirements*:'' @ CHR 0x0A # ''- REQ-9''))
     = scan_requirements [] (split_on CHR 0x0A
         (requirements_header_end (drop (1 + 12) (''*Requirements*:'' @ CHR 0x0A # ''- REQ-9''))))"
proof -
  let ?d = "''Footsteps'' @ CHR 0x0A # ''1. Walk''"
  let ?r = "''*Requirements*:'' @ CHR 0x0A # ''- REQ-9''"
  have s4: "occurs_at ''steps'' ?d 4" by code_simp
  have s0: "\<not> occurs_at ''steps'' ?d 0" by code_simp
  have s1: "\<not> occurs_at ''steps'' ?d 1" by code_simp
  have s2: "\<not> occurs_at ''steps'' ?d 2" by code_simp
  have s3: "\<not> occurs_at ''steps'' ?d 3" by code_simp
  have sa: "\<forall>k<4. \<not> occurs_at ''steps'' ?d k"
  proof (intro allI impI)
    fix k :: nat assume "k < 4"
    then have "k = 0 \<or> k = 1 \<or> k = 2 \<or> k = 3" by arith
    then show "\<not> occurs_at ''steps'' ?d k" using s0 s1 s2 s3 by blast
  qed
  have r1: "occurs_at ''requirements'' ?r 1" by code_simp
  have r0: "\<not> occurs_at ''requirements'' ?r 0" by code_simp
  have ra: "\<forall>k<1. \<not> occurs_at ''requirements'' ?r k" using r0 by simp
  have a: "extract_steps_from_documentation (Some ?d)
     = scan_steps [] (split_on CHR 0x0A (steps_header_end (drop (4 + 5) ?d)))"
    using section_starts_at_first_occurrence [of ?d 4 0] s4 sa by blast
  have b: "extract_requirements_from_documentation (Some ?r)
     = scan_requirements [] (split_on CHR 0x0A (requirements_header_end (drop (1 + 12) ?r)))"
    using section_starts_at_first_occurrence [of ?r 0 1] r1 ra by blast
  show ?thesis using s4 s0 s1 s2 s3 r1 r0 a b by blast
qed

subsection \<open>The number and the order of the steps\<close>




subsection \<open>The entry of a step\<close>

lemma map_of_last_entry:
  "k \<notin> fst ` set post \<Longrightarrow> map_of (rev post @ (k, v) # rest) k = Some v"
  by (simp add: map_of_append map_add_def map_of_eq_None_iff [THEN iffD2] split: option.splits)

lemma fold_last_value:
  assumes "step_name t \<notin> step_name ` set post"
  shows "map_of (foldl put_step [] (pre @ t # post)) (step_name t) = Some (snd (step_entry t))"
proof -
  have n: "step_name t \<notin> fst ` set (map step_entry post)"
    using assms by (auto simp: step_name_def image_iff)
  have "map_of (foldl put_step [] (pre @ t # post))
        = map_of [] ++ map_of (rev (map step_entry (pre @ t # post)))"
    by (rule fold_values)
  also have "\<dots> = map_of (rev (map step_entry post)
                      @ (step_name t, snd (step_entry t)) # rev (map step_entry pre))"
    by (simp add: step_name_def)
  finally show ?thesis using map_of_last_entry [OF n] by simp
qed

lemma fold_key_set: "fst ` set (foldl put_step [] ts) = step_name ` set ts"
proof -
  have "map fst (foldl put_step [] ts) = rev (remdups (rev (map step_name ts)))"
    using fold_keys [of "[]" ts] by simp
  then have "set (map fst (foldl put_step [] ts)) = set (map step_name ts)"
    by (simp only: set_rev set_remdups)
  then show ?thesis by simp
qed

lemma fold_key:
  "step_name t \<in> fst ` set (foldl put_step [] (pre @ t # post))"
  unfolding fold_key_set by simp

lemma step_name_plain: "CHR ''/'' \<notin> set t \<Longrightarrow> step_name t = t"
  by (simp add: step_name_def step_entry_plain)

lemma step_name_slash: "CHR ''/'' \<notin> set l \<Longrightarrow> step_name (l @ CHR ''/'' # r) = strip l"
  by (simp add: step_name_def step_entry_slash)

lemma extract_steps_fold:
  assumes "occurs_at ''steps'' doc i" and "\<forall>k<i. \<not> occurs_at ''steps'' doc k"
  shows "extract_steps_from_documentation (Some doc)
         = foldl put_step []
             (section_items False (split_on CHR 0x0A (steps_header_end (drop (i + 5) doc))))"
proof -
  have "search_label ''steps'' doc = Some (drop (i + 5) doc)"
    using search_label_first [of "''steps''" doc i] assms by (simp add: eval_nat_numeral)
  moreover have "doc \<noteq> []" using occurs_nonempty [of "''steps''" doc i] assms(1) by simp
  ultimately show ?thesis
    by (simp add: extract_steps_from_documentation_def scan_steps_fold)
qed

text \<open>
  Claim C4. Let the Steps section start at the first occurrence of \<^verbatim>\<open>steps\<close> and let \<open>t\<close> be
  the text of one of its numbered or bulleted item lines. When \<open>t\<close> holds no slash, the
  mapping returned has the key \<open>t\<close>, with the expected behaviour \<^verbatim>\<open>pass\<close>. When \<open>t\<close> is \<open>l\<close>, a
  slash and \<open>r\<close>, with no slash in \<open>l\<close>, the mapping has as key the stripped \<open>l\<close>, with the
  stripped \<open>r\<close> as expected behaviour. The value is that of the item unless a later item of
  the section is stored under the same name. The documentation
  \<^verbatim>\<open>*Steps*\n1. Open DB / verify connection\n2. Close DB\<close> gives the two entries
  \<^verbatim>\<open>Open DB\<close>: \<^verbatim>\<open>verify connection\<close> and \<^verbatim>\<open>Close DB\<close>: \<^verbatim>\<open>pass\<close>.
\<close>

theorem steps_item_split:
  "(occurs_at ''steps'' doc i \<and> (\<forall>k<i. \<not> occurs_at ''steps'' doc k) \<and>
    section_items False (split_on CHR 0x0A (steps_header_end (drop (i + 5) doc))) = pre @ t # post \<longrightarrow>
      (CHR ''/'' \<notin> set t \<longrightarrow>
         t \<in> fst ` set (extract_steps_from_documentation (Some doc)) \<and>
         (t \<notin> step_name ` set post \<longrightarrow>
            map_of (extract_steps_from_documentation (Some doc)) t = Some ''pass'')) \<and>
      (\<forall>l r. t = l @ CHR ''/'' # r \<and> CHR ''/'' \<notin> set l \<longrightarrow>
         strip l \<in> fst ` set (extract_steps_from_documentation (Some doc)) \<and>
         (strip l \<notin> step_name ` set post \<longrightarrow>
            map_of (extract_steps_from_documentation (Some doc)) (strip l) = Some (strip r)))) \<and>
   extract_steps_from_documentation
     (Some (''*Steps*'' @ CHR 0x0A # ''1. Open DB / verify connection'' @ CHR 0x0A # ''2. Close DB''))
   = [(''Open DB'', ''verify connection''), (''Close DB'', ''pass'')]"
proof -
  have ex: "extract_steps_from_documentation
     (Some (''*Steps*'' @ CHR 0x0A # ''1. Open DB / verify connection'' @ CHR 0x0A # ''2. Close DB''))
   = [(''Open DB'', ''verify connection''), (''Close DB'', ''pass'')]"
    by code_simp
  have gen: "(CHR ''/'' \<notin> set t \<longrightarrow>
         t \<in> fst ` set (extract_steps_from_documentation (Some doc)) \<and>
         (t \<notin> step_name ` set post \<longrightarrow>
            map_of (extract_steps_from_documentation (Some doc)) t = Some ''pass'')) \<and>
      (\<forall>l r. t = l @ CHR ''/'' # r \<and> CHR ''/'' \<notin> set l \<longrightarrow>
         strip l \<in> fst ` set (extract_steps_from_documentation (Some doc)) \<and>
         (strip l \<notin> step_name ` set post \<longrightarrow>
            map_of (extract_steps_from_documentation (Some doc)) (strip l) = Some (strip r)))"
    if o: "occurs_at ''steps'' doc i" and f: "\<forall>k<i. \<not> occurs_at ''steps'' doc k"
      and it: "section_items False (split_on CHR 0x0A (steps_header_end (drop (i + 5) doc))) = pre @ t # post"
  proof -
    have x: "extract_steps_from_documentation (Some doc) = foldl put_step [] (pre @ t # post)"
      using extract_steps_fold [OF o f] it by simp
    have k: "step_name t \<in> fst ` set (extract_steps_from_documentation (Some doc))"
      unfolding x by (rule fold_key)
    have v: "step_name t \<notin> step_name ` set post \<Longrightarrow>
             map_of (extract_steps_from_documentation (Some doc)) (step_name t) = Some (snd (step_entry t))"
      unfolding x by (rule fold_last_value)
    have a: "t \<in> fst ` set (extract_steps_from_documentation (Some doc)) \<and>
         (t \<notin> step_name ` set post \<longrightarrow>
            map_of (extract_steps_from_documentation (Some doc)) t = Some ''pass'')"
      if "CHR ''/'' \<notin> set t"
      using k v step_name_plain [OF that] step_entry_plain [OF that] by simp
    have b: "strip l \<in> fst ` set (extract_steps_from_documentation (Some doc)) \<and>
         (strip l \<notin> step_name ` set post \<longrightarrow>
            map_of (extract_steps_from_documentation (Some doc)) (strip l) = Some (strip r))"
      if "t = l @ CHR ''/'' # r" and "CHR ''/'' \<notin> set l" for l r
      using k v step_name_slash [OF that(2), of r] step_entry_slash [OF that(2), of r] that(1) by simp
    show ?thesis using a b by blast
  qed
  show ?thesis using gen ex by blast
qed


theorem steps_item_split_witness:
  "occurs_at ''steps''
     (''*Steps*'' @ CHR 0x0A # ''1. Open DB / verify connection'' @ CHR 0x0A # ''2. Close DB'') 1 \<and>
   \<not> occurs_at ''steps''
     (''*Steps*'' @ CHR 0x0A # ''1. Open DB / verify connection'' @ CHR 0x0A # ''2. Close DB'') 0 \<and>
   section_items False (split_on CHR 0x0A (steps_header_end (drop (1 + 5)
     (''*Steps*'' @ CHR 0x0A # ''1. Open DB / verify connection'' @ CHR 0x0A # ''2. Close DB''))))
     = [] @ ''Open DB / verify connection'' # [''Close DB''] \<and>
   ''Open DB / verify connection'' = ''Open DB '' @ CHR ''/'' # '' verify connection'' \<and>
   CHR ''/'' \<notin> set ''Open DB '' \<and>
   strip ''Open DB '' = ''Open DB'' \<and> strip '' verify connection'' = ''verify connection'' \<and>
   ''Open DB'' \<notin> step_name ` set [''Close DB''] \<and>
   ''Open DB'' \<in> fst ` set (extract_steps_from_documentation (Some
     (''*Steps*'' @ CHR 0x0A # ''1. Open DB / verify connection'' @ CHR 0x0A # ''2. Close DB''))) \<and>
   map_of (extract_steps_from_documentation (Some
     (''*Steps*'' @ CHR 0x0A # ''1. Open DB / verify connection'' @ CHR 0x0A # ''2. Close DB'')))
     ''Open DB'' = Some ''verify connection'' \<and>
   CHR ''/'' \<notin> set ''Close DB'' \<and>
   ''Close DB'' \<in> fst ` set (extract_steps_from_documentation (Some
     (''*Steps*'' @ CHR 0x0A # ''1. Open DB / verify connection'' @ CHR 0x0A # ''2. Close DB''))) \<and>
   map_of (extract_steps_from_documentation (Some
     (''*Steps*'' @ CHR 0x0A # ''1. Open DB / verify connection'' @ CHR 0x0A # ''2. Close DB'')))
     ''Close DB'' = Some ''pass''"
proof -
  let ?d = "''*Steps*'' @ CHR 0x0A # ''1. Open DB / verify connection'' @ CHR 0x0A # ''2. Close DB''"
  let ?t1 = "''Open DB / verify connection''"
  let ?t2 = "''Close DB''"
  have o: "occurs_at ''steps'' ?d 1" by code_simp
  have n0: "\<not> occurs_at ''steps'' ?d 0" by code_simp
  have f: "\<forall>k<1. \<not> occurs_at ''steps'' ?d k" using n0 by simp
  have it: "section_items False (split_on CHR 0x0A (steps_header_end (drop (1 + 5) ?d)))
            = [] @ ?t1 # [?t2]"
    by code_simp
  have it2: "section_items False (split_on CHR 0x0A (steps_header_end (drop (1 + 5) ?d)))
            = [?t1] @ ?t2 # []"
    using it by simp
  have sp: "?t1 = ''Open DB '' @ CHR ''/'' # '' verify connection''" by simp
  have ns: "CHR ''/'' \<notin> set ''Open DB ''" by simp
  have sl: "strip ''Open DB '' = ''Open DB''" by code_simp
  have sr: "strip '' verify connection'' = ''verify connection''" by code_simp
  have sn: "step_name ?t2 = ?t2" by code_simp
  have fr: "''Open DB'' \<notin> step_name ` set [?t2]" using sn by simp
  have fr': "strip ''Open DB '' \<notin> step_name ` set [?t2]" using fr sl by simp
  have a: "strip ''Open DB '' \<in> fst ` set (extract_steps_from_documentation (Some ?d)) \<and>
           map_of (extract_steps_from_documentation (Some ?d)) (strip ''Open DB '')
             = Some (strip '' verify connection'')"
    using steps_item_split [of ?d 1 "[]" ?t1 "[?t2]"] o f it sp ns fr' by blast
  have n2: "CHR ''/'' \<notin> set ?t2" by simp
  have e2: "?t2 \<notin> step_name ` set []" by simp
  have b: "?t2 \<in> fst ` set (extract_steps_from_documentation (Some ?d)) \<and>
           map_of (extract_steps_from_documentation (Some ?d)) ?t2 = Some ''pass''"
    using steps_item_split [of ?d 1 "[?t1]" ?t2 "[]"] o f it2 n2 e2 by blast
  have a': "''Open DB'' \<in> fst ` set (extract_steps_from_documentation (Some ?d))"
    "map_of (extract_steps_from_documentation (Some ?d)) ''Open DB'' = Some ''verify connection''"
    using a unfolding sl sr by blast+
  show ?thesis
    apply (intro conjI)
    apply (rule o n0 it sp ns sl sr fr a' n2 b [THEN conjunct1] b [THEN conjunct2])+
    done
qed

subsection \<open>The statistics of a standalone document\<close>

lemma status_counts_cases:
  "(st = Some ''PASS'' \<longrightarrow> status_counts st = (''1'', ''0'', ''0'')) \<and>
   (st = Some ''FAIL'' \<longrightarrow> status_counts st = (''0'', ''1'', ''0'')) \<and>
   (st = Some ''SKIP'' \<longrightarrow> status_counts st = (''0'', ''0'', ''1'')) \<and>
   (st \<noteq> Some ''PASS'' \<and> st \<noteq> Some ''FAIL'' \<and> st \<noteq> Some ''SKIP'' \<longrightarrow>
      status_counts st = (''0'', ''0'', ''0''))"
  by (simp add: status_counts_def)

lemma files_debug_print [simp]: "files (debug_print cfg es r) = files r"
  by (simp add: debug_print_def)

lemma commands_debug_print [simp]: "commands (debug_print cfg es r) = commands r"
  by (simp add: debug_print_def)

lemma files_render [simp]: "files (render cfg ev idx name lf xf r) = files r"
  by (simp add: render_def Let_def split: run_result.splits)

lemma process_test_document:
  "process_test cfg ev root dir n idx suite test r = (r', None) \<Longrightarrow>
   \<exists>path st doc. find_first (findall ''status'' test) = Some st \<and>
      new_root root suite test (get st ''status'') = Inr doc \<and>
      files r' = files r @ [(path, Document doc)]"
  by (auto simp: process_test_def Let_def split: sum.splits option.splits if_splits)

lemma new_root_shape:
  "new_root root suite test st = Inr doc \<Longrightarrow>
      (\<exists>tags suite_stats.
         doc = Element ''robot'' (attrib root) None
                 [new_suite suite test,
                  Element ''statistics'' [] None
                    [Element ''total'' [] None
                       [Element ''stat'' (count_attrib (status_counts st)) (Some ''All Tests'') []],
                     Element ''tag'' [] None tags,
                     suite_stats],
                  Element ''errors'' [] None []] \<and>
         map attrib tags = replicate (length (findall ''tag'' test)) (count_attrib (status_counts st)) \<and>
         map etext tags = map etext (findall ''tag'' test))"
  by (auto simp: new_root_def statistics_def Let_def comp_def map_replicate_const
      split: sum.splits option.splits)

text \<open>
  Claim C6, as amended. The standalone document written for a pair holds, under
  \<^verbatim>\<open>statistics\<close>, one aggregate entry whose three counts are computed from the status
  attribute of the test alone, and one entry for each tag of the test, in order, with the
  same three counts. For the status PASS, FAIL or SKIP exactly one count is 1 (pass, fail
  and skip in turn) and the other two are 0; for every other status, UNKNOWN among them,
  and for a status element without status attribute, all three counts are 0.
\<close>

theorem statistics_of_status:
  "(process_test cfg ev root dir n idx suite test r = (r', None) \<longrightarrow>
      (\<exists>path st doc tags suite_stats.
         find_first (findall ''status'' test) = Some st \<and>
         files r' = files r @ [(path, Document doc)] \<and>
         doc = Element ''robot'' (attrib root) None
                 [new_suite suite test,
                  Element ''statistics'' [] None
                    [Element ''total'' [] None
                       [Element ''stat'' (count_attrib (status_counts (get st ''status'')))
                          (Some ''All Tests'') []],
                     Element ''tag'' [] None tags,
                     suite_stats],
                  Element ''errors'' [] None []] \<and>
         map attrib tags = replicate (length (findall ''tag'' test))
                             (count_attrib (status_counts (get st ''status''))) \<and>
         map etext tags = map etext (findall ''tag'' test))) \<and>
   count_attrib (status_counts s)
     = [(''pass'', fst (status_counts s)), (''fail'', fst (snd (status_counts s))),
        (''skip'', snd (snd (status_counts s)))] \<and>
   (s = Some ''PASS'' \<longrightarrow> status_counts s = (''1'', ''0'', ''0'')) \<and>
   (s = Some ''FAIL'' \<longrightarrow> status_counts s = (''0'', ''1'', ''0'')) \<and>
   (s = Some ''SKIP'' \<longrightarrow> status_counts s = (''0'', ''0'', ''1'')) \<and>
   (s \<noteq> Some ''PASS'' \<and> s \<noteq> Some ''FAIL'' \<and> s \<noteq> Some ''SKIP'' \<longrightarrow>
      status_counts s = (''0'', ''0'', ''0''))"
proof -
  have a: "\<exists>path st doc tags suite_stats.
         find_first (findall ''status'' test) = Some st \<and>
         files r' = files r @ [(path, Document doc)] \<and>
         doc = Element ''robot'' (attrib root) None
                 [new_suite suite test,
                  Element ''statistics'' [] None
                    [Element ''total'' [] None
                       [Element ''stat'' (count_attrib (status_counts (get st ''status'')))
                          (Some ''All Tests'') []],
                     Element ''tag'' [] None tags,
                     suite_stats],
                  Element ''errors'' [] None []] \<and>
         map attrib tags = replicate (length (findall ''tag'' test))
                             (count_attrib (status_counts (get st ''status''))) \<and>
         map etext tags = map etext (findall ''tag'' test)"
    if p: "process_test cfg ev root dir n idx suite test r = (r', None)"
  proof -
    from process_test_document [OF p] obtain path st doc where
      s: "find_first (findall ''status'' test) = Some st" and
      d: "new_root root suite test (get st ''status'') = Inr doc" and
      f: "files r' = files r @ [(path, Document doc)]"
      by blast
    from new_root_shape [OF d] s f show ?thesis by blast
  qed
  have b: "count_attrib (status_counts s)
     = [(''pass'', fst (status_counts s)), (''fail'', fst (snd (status_counts s))),
        (''skip'', snd (snd (status_counts s)))]"
    by (simp add: count_attrib_def split: prod.splits)
  show ?thesis using a b status_counts_cases [of s] by blast
qed

theorem statistics_of_status_witness:
  "\<exists>r' path tags suite_stats.
     process_test no_prefix (example_env (\<lambda>s. s) (\<lambda>_. Inl (OSError [])))
       (example_chunk ''/repo/tests/login.robot'') ''out'' 1 1
       (suite_elem ''s1'' ''Login'' ''/repo/tests/login.robot'' [example_test]) example_test
       empty_run = (r', None) \<and>
     find_first (findall ''status'' example_test) = Some (status_elem ''PASS'') \<and>
     get (status_elem ''PASS'') ''status'' = Some ''PASS'' \<and>
     files r' =
       [(path, Document (Element ''robot'' [] None
          [new_suite (suite_elem ''s1'' ''Login'' ''/repo/tests/login.robot'' [example_test])
             example_test,
           Element ''statistics'' [] None
             [Element ''total'' [] None
                [Element ''stat'' [(''pass'', ''1''), (''fail'', ''0''), (''skip'', ''0'')]
                   (Some ''All Tests'') []],
              Element ''tag'' [] None tags,
              suite_stats],
           Element ''errors'' [] None []]))] \<and>
     map attrib tags = [[(''pass'', ''1''), (''fail'', ''0''), (''skip'', ''0'')],
                        [(''pass'', ''1''), (''fail'', ''0''), (''skip'', ''0'')]] \<and>
     map etext tags = [Some ''smoke'', Some ''auth'']"
proof -
  let ?ev = "example_env (\<lambda>s. s) (\<lambda>_. Inl (OSError []))"
  let ?root = "example_chunk ''/repo/tests/login.robot''"
  let ?suite = "suite_elem ''s1'' ''Login'' ''/repo/tests/login.robot'' [example_test]"
  let ?p = "process_test no_prefix ?ev ?root ''out'' 1 1 ?suite example_test empty_run"
  have "snd ?p = None" by code_simp
  then have p: "?p = (fst ?p, None)" by (simp add: prod_eq_iff)
  have st: "find_first (findall ''status'' example_test) = Some (status_elem ''PASS'')"
    by code_simp
  have g: "get (status_elem ''PASS'') ''status'' = Some ''PASS''" by code_simp
  have c: "status_counts (Some ''PASS'') = (''1'', ''0'', ''0'')"
    using statistics_of_status [of _ _ _ _ _ _ _ _ _ _ "Some ''PASS''"] by blast
  have t: "findall ''tag'' example_test
           = [Element ''tag'' [] (Some ''smoke'') [], Element ''tag'' [] (Some ''auth'') []]"
    by code_simp
  have r: "attrib ?root = []" by (simp add: example_chunk_def)
  have e: "files empty_run = []" by (simp add: empty_run_def)
  from statistics_of_status [of no_prefix ?ev ?root "''out''" 1 1 ?suite example_test empty_run "fst ?p"] p
  obtain path st doc tags suite_stats where x:
    "find_first (findall ''status'' example_test) = Some st"
    "files (fst ?p) = files empty_run @ [(path, Document doc)]"
    "doc = Element ''robot'' (attrib ?root) None
             [new_suite ?suite example_test,
              Element ''statistics'' [] None
                [Element ''total'' [] None
                   [Element ''stat'' (count_attrib (status_counts (get st ''status''))) (Some ''All Tests'') []],
                 Element ''tag'' [] None tags,
                 suite_stats],
              Element ''errors'' [] None []]"
    "map attrib tags = replicate (length (findall ''tag'' example_test)) (count_attrib (status_counts (get st ''status'')))"
    "map etext tags = map etext (findall ''tag'' example_test)"
    by blast
  from x(1) st have "st = status_elem ''PASS''" by simp
  with x g c t r e have f:
    "files (fst ?p) = [(path, Document (Element ''robot'' [] None
          [new_suite ?suite example_test,
           Element ''statistics'' [] None
             [Element ''total'' [] None
                [Element ''stat'' [(''pass'', ''1''), (''fail'', ''0''), (''skip'', ''0'')]
                   (Some ''All Tests'') []],
              Element ''tag'' [] None tags,
              suite_stats],
           Element ''errors'' [] None []]))]"
    "map attrib tags = [[(''pass'', ''1''), (''fail'', ''0''), (''skip'', ''0'')],
                        [(''pass'', ''1''), (''fail'', ''0''), (''skip'', ''0'')]]"
    "map etext tags = [Some ''smoke'', Some ''auth'']"
    by (simp_all add: count_attrib_def eval_nat_numeral)
  show ?thesis
    apply (rule exI [of _ "fst ?p"])
    apply (rule exI [of _ path])
    apply (rule exI [of _ tags])
    apply (rule exI [of _ suite_stats])
    apply (intro conjI)
    apply (rule p st g f)+
    done
qed

text \<open>
  The claim as stated fails at the status UNKNOWN: splitting a report whose only test has
  that status writes a document in which none of the three counts is 1.
\<close>

theorem statistics_of_status_counterexample:
  "\<exists>path tags suite_stats.
     snd (split_to_chunks no_prefix
       (example_env (\<lambda>s. s) (\<lambda>_. Inr (Element ''robot'' [] None
          [suite_elem ''s1'' ''Login'' ''/repo/tests/login.robot''
             [test_elem ''s1-t1'' ''Login'' [status_elem ''UNKNOWN'']]])))
       ''output.xml'' ''out'') = None \<and>
     files (fst (split_to_chunks no_prefix
       (example_env (\<lambda>s. s) (\<lambda>_. Inr (Element ''robot'' [] None
          [suite_elem ''s1'' ''Login'' ''/repo/tests/login.robot''
             [test_elem ''s1-t1'' ''Login'' [status_elem ''UNKNOWN'']]])))
       ''output.xml'' ''out'')) =
       [(path, Document (Element ''robot'' [] None
          [new_suite (suite_elem ''s1'' ''Login'' ''/repo/tests/login.robot''
                        [test_elem ''s1-t1'' ''Login'' [status_elem ''UNKNOWN'']])
             (test_elem ''s1-t1'' ''Login'' [status_elem ''UNKNOWN'']),
           Element ''statistics'' [] None
             [Element ''total'' [] None
                [Element ''stat'' [(''pass'', ''0''), (''fail'', ''0''), (''skip'', ''0'')]
                   (Some ''All Tests'') []],
              Element ''tag'' [] None tags,
              suite_stats],
           Element ''errors'' [] None []]))]"
proof -
  let ?test = "test_elem ''s1-t1'' ''Login'' [status_elem ''UNKNOWN'']"
  let ?suite = "suite_elem ''s1'' ''Login'' ''/repo/tests/login.robot'' [?test]"
  let ?s = "split_to_chunks no_prefix
       (example_env (\<lambda>s. s) (\<lambda>_. Inr (Element ''robot'' [] None [?suite]))) ''output.xml'' ''out''"
  have a: "snd ?s = None" by code_simp
  have b: "files (fst ?s) = [(''out/1_Login_s1-t1.xml'', Document (Element ''robot'' [] None
          [new_suite ?suite ?test,
           Element ''statistics'' [] None
             [Element ''total'' [] None
                [Element ''stat'' [(''pass'', ''0''), (''fail'', ''0''), (''skip'', ''0'')]
                   (Some ''All Tests'') []],
              Element ''tag'' [] None [],
              Element ''suite'' [] None
                [Element ''stat'' [(''name'', ''Login''), (''id'', ''s1''), (''pass'', ''0''),
                   (''fail'', ''0''), (''skip'', ''0'')] None []]],
           Element ''errors'' [] None []]))]"
    by code_simp
  from a b show ?thesis by (intro exI conjI)
qed

subsection \<open>Failure records of the chunk reader\<close>

lemma read_chunk_result:
  "read_chunk cfg ev p = Inr r \<Longrightarrow>
   map_of r ''success'' = Some (VBool True) \<or> (\<exists>err. r = failure p err)"
  by (auto simp: read_chunk_def Let_def split: sum.splits option.splits prod.splits)

lemma get_data_from_chunk_result:
  "map_of (get_data_from_chunk cfg ev p) ''success'' = Some (VBool True) \<or>
   (\<exists>err. get_data_from_chunk cfg ev p = failure p err)"
proof (cases "read_chunk cfg ev p")
  case (Inl e)
  then show ?thesis by (cases e) (auto simp: get_data_from_chunk_def)
next
  case (Inr r)
  then show ?thesis using read_chunk_result [OF Inr] by (simp add: get_data_from_chunk_def)
qed

lemma chunk_parse_error:
  "parse ev p = Inl (ParseError m) \<Longrightarrow>
   get_data_from_chunk cfg ev p = failure p (''XML parsing error: '' @ m)"
  by (simp add: get_data_from_chunk_def read_chunk_def)

lemma chunk_other_error:
  "parse ev p = Inl e \<Longrightarrow> \<forall>m. e \<noteq> ParseError m \<Longrightarrow>
   get_data_from_chunk cfg ev p = failure p (''Error reading chunk: '' @ message e)"
  by (cases e) (simp_all add: get_data_from_chunk_def read_chunk_def)

lemma chunk_no_suite:
  "parse ev p = Inr root \<Longrightarrow> findall_desc ''suite'' root = [] \<Longrightarrow>
   get_data_from_chunk cfg ev p = failure p ''No suite element found in XML''"
  by (simp add: get_data_from_chunk_def read_chunk_def find_first_def)

lemma chunk_no_test:
  "parse ev p = Inr root \<Longrightarrow> findall_desc ''suite'' root = suite # suites \<Longrightarrow>
   findall ''test'' suite = [] \<Longrightarrow>
   get_data_from_chunk cfg ev p = failure p ''No test element found in XML''"
  by (simp add: get_data_from_chunk_def read_chunk_def find_first_def)

lemma search_msgs_exn: "search_msgs pat ms = Inl e \<Longrightarrow> e = AttributeError (none_has_no ''upper'')"
  by (induction ms) (auto split: option.splits if_splits group1.splits)

lemma search_parents_exn:
  "search_parents pat root ids = Inl e \<Longrightarrow> e = AttributeError (none_has_no ''upper'')"
  by (induction ids) (auto split: option.splits sum.splits dest: search_msgs_exn)

lemma extract_filename_prefix_exn:
  "extract_filename_prefix cfg test suite root = Inl e \<Longrightarrow>
   e = AttributeError (none_has_no ''upper'')"
  by (auto simp: extract_filename_prefix_def split: option.splits sum.splits
      dest: search_msgs_exn search_parents_exn)

lemma chunk_prefix_error:
  "parse ev p = Inr root \<Longrightarrow> findall_desc ''suite'' root = suite # suites \<Longrightarrow>
   findall ''test'' suite = test # tests \<Longrightarrow> filename_prefix_pattern cfg = Some pat \<Longrightarrow>
   extract_filename_prefix cfg test suite (Some root) = Inl e \<Longrightarrow>
   get_data_from_chunk cfg ev p = failure p (''Error reading chunk: '' @ message e)"
  by (frule extract_filename_prefix_exn)
     (simp add: get_data_from_chunk_def read_chunk_def find_first_def Let_def split: prod.splits)

text \<open>
  Claim C7. Whatever the file holds, \<^verbatim>\<open>get_data_from_chunk\<close> returns a record: either one with
  \<^verbatim>\<open>success\<close> true, or one that holds the document path, \<^verbatim>\<open>success\<close> false and an error
  message and nothing else. A parse error, any other exception of the parser, a document
  without suite element, a suite without test element and an exception of the prefix
  resolution each give such a record, and the messages of the four kinds of failure differ
  from one another.
\<close>

theorem chunk_failure_records:
  "(map_of (get_data_from_chunk cfg ev p) ''success'' = Some (VBool True) \<or>
    (\<exists>err. get_data_from_chunk cfg ev p
       = [(''xml_file'', VStr p), (''success'', VBool False), (''error'', VStr err)])) \<and>
   (parse ev p = Inl (ParseError m) \<longrightarrow>
      get_data_from_chunk cfg ev p = failure p (''XML parsing error: '' @ m)) \<and>
   (parse ev p = Inl e \<and> (\<forall>m. e \<noteq> ParseError m) \<longrightarrow>
      get_data_from_chunk cfg ev p = failure p (''Error reading chunk: '' @ message e)) \<and>
   (parse ev p = Inr root \<and> findall_desc ''suite'' root = [] \<longrightarrow>
      get_data_from_chunk cfg ev p = failure p ''No suite element found in XML'') \<and>
   (parse ev p = Inr root \<and> findall_desc ''suite'' root = suite # suites \<and>
    findall ''test'' suite = [] \<longrightarrow>
      get_data_from_chunk cfg ev p = failure p ''No test element found in XML'') \<and>
   (parse ev p = Inr root \<and> findall_desc ''suite'' root = suite # suites \<and>
    findall ''test'' suite = test # tests \<and> filename_prefix_pattern cfg = Some pat \<and>
    extract_filename_prefix cfg test suite (Some root) = Inl e \<longrightarrow>
      get_data_from_chunk cfg ev p = failure p (''Error reading chunk: '' @ message e)) \<and>
   failure p err = [(''xml_file'', VStr p), (''success'', VBool False), (''error'', VStr err)] \<and>
   distinct [''No suite element found in XML'', ''No test element found in XML'',
             ''XML parsing error: '' @ m1, ''Error reading chunk: '' @ m2]"
proof -
  have f: "failure p x = [(''xml_file'', VStr p), (''success'', VBool False), (''error'', VStr x)]"
    for x by (simp add: failure_def)
  have d: "distinct [''No suite element found in XML'', ''No test element found in XML'',
             ''XML parsing error: '' @ m1, ''Error reading chunk: '' @ m2]"
    by simp
  show ?thesis
    using get_data_from_chunk_result [of cfg ev p] chunk_parse_error [of ev p m cfg]
      chunk_other_error [of ev p e cfg] chunk_no_suite [of ev p root cfg]
      chunk_no_test [of ev p root suite suites cfg]
      chunk_prefix_error [of ev p root suite suites test tests cfg pat e] d
    unfolding f by blast
qed


theorem chunk_failure_records_witness:
  "get_data_from_chunk no_prefix
     (example_env (\<lambda>s. s) (\<lambda>_. Inl (ParseError ''no element found: line 1, column 0'')))
     ''out/1_Login_s1-t1.xml''
   = [(''xml_file'', VStr ''out/1_Login_s1-t1.xml''), (''success'', VBool False),
      (''error'', VStr ''XML parsing error: no element found: line 1, column 0'')] \<and>
   get_data_from_chunk no_prefix
     (example_env (\<lambda>s. s) (\<lambda>_. Inl (OSError ''No such file or directory'')))
     ''out/1_Login_s1-t1.xml''
   = [(''xml_file'', VStr ''out/1_Login_s1-t1.xml''), (''success'', VBool False),
      (''error'', VStr ''Error reading chunk: No such file or directory'')] \<and>
   get_data_from_chunk no_prefix
     (example_env (\<lambda>s. s) (\<lambda>_. Inr (Element ''robot'' [] None [])))
     ''out/1_Login_s1-t1.xml''
   = [(''xml_file'', VStr ''out/1_Login_s1-t1.xml''), (''success'', VBool False),
      (''error'', VStr ''No suite element found in XML'')] \<and>
   get_data_from_chunk no_prefix
     (example_env (\<lambda>s. s) (\<lambda>_. Inr (Element ''robot'' [] None [suite_elem ''s1'' ''Login'' [] []])))
     ''out/1_Login_s1-t1.xml''
   = [(''xml_file'', VStr ''out/1_Login_s1-t1.xml''), (''success'', VBool False),
      (''error'', VStr ''No test element found in XML'')] \<and>
   get_data_from_chunk \<lparr>debug = True, filename_prefix_pattern = Some (\<lambda>_. Unset)\<rparr>
     (example_env (\<lambda>s. s) (\<lambda>_. Inr (Element ''robot'' [] None
        [suite_elem ''s1'' ''Login'' []
           [kw_elem ''SETUP'' [msg_elem ''connect''], example_test]])))
     ''out/1_Login_s1-t1.xml''
   = [(''xml_file'', VStr ''out/1_Login_s1-t1.xml''), (''success'', VBool False),
      (''error'', VStr (''Error reading chunk: '' @ none_has_no ''upper''))]"
proof -
  let ?p = "''out/1_Login_s1-t1.xml''"
  let ?ea = "example_env (\<lambda>s. s) (\<lambda>_. Inl (ParseError ''no element found: line 1, column 0''))"
  let ?eb = "example_env (\<lambda>s. s) (\<lambda>_. Inl (OSError ''No such file or directory''))"
  let ?rc = "Element ''robot'' [] None []"
  let ?sd = "suite_elem ''s1'' ''Login'' [] []"
  let ?rd = "Element ''robot'' [] None [?sd]"
  let ?se = "suite_elem ''s1'' ''Login'' [] [kw_elem ''SETUP'' [msg_elem ''connect''], example_test]"
  let ?re = "Element ''robot'' [] None [?se]"
  let ?cfg = "\<lparr>debug = True, filename_prefix_pattern = Some (\<lambda>_. Unset)\<rparr>"
  have a: "get_data_from_chunk no_prefix ?ea ?p
           = failure ?p (''XML parsing error: '' @ ''no element found: line 1, column 0'')"
    using chunk_failure_records [of no_prefix ?ea ?p "''no element found: line 1, column 0''"]
    by (simp add: example_env_def)
  have b: "get_data_from_chunk no_prefix ?eb ?p
           = failure ?p (''Error reading chunk: '' @ message (OSError ''No such file or directory''))"
    using chunk_failure_records [of no_prefix ?eb ?p _ "OSError ''No such file or directory''"]
    by (simp add: example_env_def)
  have c: "get_data_from_chunk no_prefix (example_env (\<lambda>s. s) (\<lambda>_. Inr ?rc)) ?p
           = failure ?p ''No suite element found in XML''"
    using chunk_failure_records [of no_prefix "example_env (\<lambda>s. s) (\<lambda>_. Inr ?rc)" ?p _ _ ?rc]
    by (simp add: example_env_def findall_desc_def)
  have d1: "findall_desc ''suite'' ?rd = [?sd]" by (simp add: findall_desc_def suite_elem_def)
  have d2: "findall ''test'' ?sd = []" by (simp add: findall_def suite_elem_def)
  have d: "get_data_from_chunk no_prefix (example_env (\<lambda>s. s) (\<lambda>_. Inr ?rd)) ?p
           = failure ?p ''No test element found in XML''"
    using chunk_failure_records [of no_prefix "example_env (\<lambda>s. s) (\<lambda>_. Inr ?rd)" ?p _ _ ?rd ?sd "[]"] d1 d2
    by (simp add: example_env_def)
  have e1: "findall_desc ''suite'' ?re = [?se]" by code_simp
  have e2: "findall ''test'' ?se = [example_test]" by code_simp
  have e3: "extract_filename_prefix ?cfg example_test ?se (Some ?re)
            = Inl (AttributeError (none_has_no ''upper''))"
    by (simp add: extract_filename_prefix_def setup_msgs_def findall_desc_def suite_elem_def
        kw_elem_def msg_elem_def example_test_def test_elem_def status_elem_def get_def)
  have e: "get_data_from_chunk ?cfg (example_env (\<lambda>s. s) (\<lambda>_. Inr ?re)) ?p
           = failure ?p (''Error reading chunk: '' @ message (AttributeError (none_has_no ''upper'')))"
    using chunk_failure_records [of ?cfg "example_env (\<lambda>s. s) (\<lambda>_. Inr ?re)" ?p _
        "AttributeError (none_has_no ''upper'')" ?re ?se "[]" example_test "[]" "\<lambda>_. Unset"] e1 e2 e3
    by (simp add: example_env_def)
  show ?thesis
    unfolding a b c d e by (simp add: failure_def)
qed

subsection \<open>The index and the checksum of a chunk\<close>

lemma normalize_source_index:
  "normalize_source (marker # markers) i s = normalize_source (marker # markers) j s"
  by (cases markers) (simp_all add: Let_def)

text \<open>
  Claim C1. The index of a record is claimed to be the number at the start of the file name
  and not to depend on the source path. The loop that normalizes the source path assigns to
  the same variable, so the record holds the position of the marker in the source path, or
  \<open>-1\<close>: for the file \<^verbatim>\<open>7_Login_s1-t1.xml\<close>, whose name gives 7, the index is 5, 8 and \<open>-1\<close>
  for three source paths.
\<close>

theorem chunk_index_overwritten:
  "filename_index ''out/7_Login_s1-t1.xml'' = 7 \<and>
   map_of (get_data_from_chunk no_prefix
       (example_env (\<lambda>s. s) (\<lambda>_. Inr (example_chunk ''/repo/tests/login.robot'')))
       ''out/7_Login_s1-t1.xml'') ''success'' = Some (VBool True) \<and>
   map_of (get_data_from_chunk no_prefix
       (example_env (\<lambda>s. s) (\<lambda>_. Inr (example_chunk ''/repo/tests/login.robot'')))
       ''out/7_Login_s1-t1.xml'') ''index'' = Some (VInt 5) \<and>
   map_of (get_data_from_chunk no_prefix
       (example_env (\<lambda>s. s) (\<lambda>_. Inr (example_chunk ''/home/ci/tests/login.robot'')))
       ''out/7_Login_s1-t1.xml'') ''index'' = Some (VInt 8) \<and>
   map_of (get_data_from_chunk no_prefix
       (example_env (\<lambda>s. s) (\<lambda>_. Inr (example_chunk ''login.robot'')))
       ''out/7_Login_s1-t1.xml'') ''index'' = Some (VInt (- 1))"
  by code_simp

text \<open>
  Claim C2. The source path is claimed to be cut at whichever of \<^verbatim>\<open>tests/\<close> and \<^verbatim>\<open>scripts/\<close>
  occurs first in it. The loop looks for \<^verbatim>\<open>/tests/\<close> first and stops when it finds it: the
  path \<^verbatim>\<open>/repo/scripts/tools/tests/case.robot\<close>, where \<^verbatim>\<open>/scripts/\<close> stands at 5 and \<^verbatim>\<open>/tests/\<close>
  at 19, is cut to \<^verbatim>\<open>tests/case.robot\<close>, and the checksum is taken of that.
\<close>

theorem checksum_probe_order:
  "str_find (lower ''/repo/scripts/tools/tests/case.robot'') ''/scripts/'' = 5 \<and>
   str_find (lower ''/repo/scripts/tools/tests/case.robot'') ''/tests/'' = 19 \<and>
   snd (normalize_source [''/tests/'', ''/scripts/''] 7 (lower ''/repo/scripts/tools/tests/case.robot''))
     = ''tests/case.robot'' \<and>
   map_of (get_data_from_chunk no_prefix
       (example_env (\<lambda>s. s) (\<lambda>_. Inr (example_chunk ''/repo/scripts/tools/tests/case.robot'')))
       ''out/7_Login_s1-t1.xml'') ''checksum''
     = Some (VStr (''Login'' @ ''Checks login.'' @ ''tests/case.robot''))"
  by code_simp

text \<open>
  The two paths of the claim's example do normalize to the same text.
\<close>

lemma checksum_relocated:
  "snd (normalize_source [''/tests/'', ''/scripts/''] i (lower ''/repo/checkout/tests/suite/case.robot''))
     = ''tests/suite/case.robot'' \<and>
   snd (normalize_source [''/tests/'', ''/scripts/''] i (lower ''/other/root/TESTS/suite/case.robot''))
     = ''tests/suite/case.robot''"
proof -
  have a: "lower ''/repo/checkout/tests/suite/case.robot'' = ''/repo/checkout/tests/suite/case.robot''"
    by code_simp
  have b: "lower ''/other/root/TESTS/suite/case.robot'' = ''/other/root/tests/suite/case.robot''"
    by code_simp
  show ?thesis unfolding a b by (simp add: str_find_def startswith_def)
qed

subsection \<open>The order of the prefix search\<close>

text \<open>
  Claim C9. The search is claimed to look first at the setup actions directly under the
  suite, then at the ancestor suites, then at the messages of the test. The first search
  takes every SETUP keyword below the suite at any depth, those of other tests included:
  in a suite without setup and without ancestors, the test whose own message names the
  session \<^verbatim>\<open>web\<close> gets the prefix \<^verbatim>\<open>DB\<close> from the setup of its sibling test.
\<close>

theorem prefix_from_sibling_setup:
  "findall_kw ''SETUP'' session_suite = [] \<and>
   parent_ids (get_default session_suite ''id'' []) = [] \<and>
   search_msgs (capture_word ''session='') (findall_desc ''msg'' web_test) = Inr (Some ''WEB'') \<and>
   extract_filename_prefix session_prefix web_test session_suite (Some session_report)
     = Inr (Some ''DB'')"
  by code_simp

subsection \<open>Failures while splitting\<close>

lemma commands_render:
  "commands (render cfg ev idx name lf xf r)
   = commands r @ [[''rebot'', ''--output'', ''NONE'', ''--log'', lf, ''--name'', name,
                    ''--NoStatusRC'', xf]]"
  by (simp add: render_def Let_def split: run_result.splits)

lemma process_test_rebot:
  assumes "files r1 = files r2" and "commands r1 = commands r2"
  shows "files (fst (process_test cfg (ev\<lparr>rebot := rb\<rparr>) root dir n idx suite test r1))
           = files (fst (process_test cfg ev root dir n idx suite test r2)) \<and>
         commands (fst (process_test cfg (ev\<lparr>rebot := rb\<rparr>) root dir n idx suite test r1))
           = commands (fst (process_test cfg ev root dir n idx suite test r2)) \<and>
         snd (process_test cfg (ev\<lparr>rebot := rb\<rparr>) root dir n idx suite test r1)
           = snd (process_test cfg ev root dir n idx suite test r2)"
  using assms
  by (simp add: process_test_def Let_def commands_render split: sum.splits option.splits)

lemma split_loop_Cons:
  "split_loop cfg ev root dir n idx ((suite, test) # rest) r =
     (case snd (process_test cfg ev root dir n idx suite test r) of
        Some e \<Rightarrow> (fst (process_test cfg ev root dir n idx suite test r), Some e)
      | None \<Rightarrow>
          split_loop cfg ev root dir n (Suc idx) rest
            (fst (process_test cfg ev root dir n idx suite test r)))"
  by (simp split: prod.splits option.splits)

lemma split_loop_rebot:
  "files r1 = files r2 \<Longrightarrow> commands r1 = commands r2 \<Longrightarrow>
   files (fst (split_loop cfg (ev\<lparr>rebot := rb\<rparr>) root dir n idx tcs r1))
     = files (fst (split_loop cfg ev root dir n idx tcs r2)) \<and>
   commands (fst (split_loop cfg (ev\<lparr>rebot := rb\<rparr>) root dir n idx tcs r1))
     = commands (fst (split_loop cfg ev root dir n idx tcs r2)) \<and>
   snd (split_loop cfg (ev\<lparr>rebot := rb\<rparr>) root dir n idx tcs r1)
     = snd (split_loop cfg ev root dir n idx tcs r2)"
proof (induction tcs arbitrary: idx r1 r2)
  case Nil
  then show ?case by simp
next
  case (Cons tc tcs)
  obtain suite test where tc: "tc = (suite, test)" by (cases tc)
  let ?p1 = "process_test cfg (ev\<lparr>rebot := rb\<rparr>) root dir n idx suite test r1"
  let ?p2 = "process_test cfg ev root dir n idx suite test r2"
  have s: "files (fst ?p1) = files (fst ?p2)" "commands (fst ?p1) = commands (fst ?p2)"
    "snd ?p1 = snd ?p2"
    using process_test_rebot [OF Cons.prems] by blast+
  show ?case
  proof (cases "snd ?p2")
    case None
    then have "split_loop cfg (ev\<lparr>rebot := rb\<rparr>) root dir n idx (tc # tcs) r1
                 = split_loop cfg (ev\<lparr>rebot := rb\<rparr>) root dir n (Suc idx) tcs (fst ?p1)"
      and "split_loop cfg ev root dir n idx (tc # tcs) r2
                 = split_loop cfg ev root dir n (Suc idx) tcs (fst ?p2)"
      using s(3) by (simp_all add: tc split_loop_Cons del: split_loop.simps)
    then show ?thesis using Cons.IH [OF s(1) s(2)] by simp
  next
    case (Some e)
    then have "split_loop cfg (ev\<lparr>rebot := rb\<rparr>) root dir n idx (tc # tcs) r1 = (fst ?p1, Some e)"
      and "split_loop cfg ev root dir n idx (tc # tcs) r2 = (fst ?p2, Some e)"
      using s(3) by (simp_all add: tc split_loop_Cons del: split_loop.simps)
    then show ?thesis using s by simp
  qed
qed

lemma split_to_chunks_rebot:
  "files (fst (split_to_chunks cfg (ev\<lparr>rebot := rb\<rparr>) x d)) = files (fst (split_to_chunks cfg ev x d)) \<and>
   commands (fst (split_to_chunks cfg (ev\<lparr>rebot := rb\<rparr>) x d))
     = commands (fst (split_to_chunks cfg ev x d)) \<and>
   snd (split_to_chunks cfg (ev\<lparr>rebot := rb\<rparr>) x d) = snd (split_to_chunks cfg ev x d)"
proof (cases "mkdir ev d")
  case (Some e)
  then show ?thesis by (simp add: split_to_chunks_def)
next
  case None
  show ?thesis
  proof (cases "parse ev x")
    case (Inl e)
    then show ?thesis using None by (simp add: split_to_chunks_def)
  next
    case (Inr root)
    then show ?thesis using None
      by (simp add: split_to_chunks_def Let_def split_loop_rebot)
  qed
qed

lemma process_test_ok:
  "process_test cfg ev root dir n idx suite test r = (r', None) \<Longrightarrow>
   \<exists>path doc cmd. files r' = files r @ [(path, Document doc)] \<and>
      commands r' = commands r @ [cmd] \<and> last cmd = path"
  by (auto simp: process_test_def Let_def commands_render split: sum.splits option.splits if_splits)

lemma split_loop_ok:
  "split_loop cfg ev root dir n idx tcs r = (r', None) \<Longrightarrow>
   map fst (files r) = map last (commands r) \<Longrightarrow> Truncated \<notin> snd ` set (files r) \<Longrightarrow>
   map fst (files r') = map last (commands r') \<and> Truncated \<notin> snd ` set (files r') \<and>
   length (files r') = length (files r) + length tcs"
proof (induction tcs arbitrary: idx r)
  case Nil
  then show ?case by simp
next
  case (Cons tc tcs)
  obtain suite test where tc: "tc = (suite, test)" by (cases tc)
  obtain r1 e1 where p: "process_test cfg ev root dir n idx suite test r = (r1, e1)"
    by (cases "process_test cfg ev root dir n idx suite test r")
  have e1: "e1 = None" using Cons.prems(1) p by (cases e1) (simp_all add: tc)
  have l: "split_loop cfg ev root dir n (Suc idx) tcs r1 = (r', None)"
    using Cons.prems(1) p e1 by (simp add: tc)
  from process_test_ok [OF p [unfolded e1]] obtain path doc cmd where
    x: "files r1 = files r @ [(path, Document doc)]" "commands r1 = commands r @ [cmd]"
       "last cmd = path"
    by blast
  have a: "map fst (files r1) = map last (commands r1)" using Cons.prems(2) x by simp
  have b: "Truncated \<notin> snd ` set (files r1)" using Cons.prems(3) x by auto
  from Cons.IH [OF l a b] show ?case using x by simp
qed

lemma process_test_total:
  assumes "splittable cfg root (suite, test)" and "\<forall>path. can_write ev path"
  shows "snd (process_test cfg ev root dir n idx suite test r) = None"
proof -
  obtain nm where nm: "get test ''name'' = Some nm" using assms(1) by (auto simp: splittable_def)
  obtain st sts where st: "findall ''status'' test = st # sts"
    using assms(1) by (cases "findall ''status'' test") (auto simp: splittable_def)
  obtain sn where sn: "get suite ''name'' = Some sn" using assms(1) by (auto simp: splittable_def)
  obtain si where si: "get suite ''id'' = Some si" using assms(1) by (auto simp: splittable_def)
  obtain pf where pf: "extract_filename_prefix cfg test suite (Some root) = Inr pf"
    using assms(1) by (cases "extract_filename_prefix cfg test suite (Some root)") (auto simp: splittable_def)
  show ?thesis
    using assms(2)
    by (simp add: process_test_def Let_def nm st sn si pf find_first_def new_root_def statistics_def)
qed

lemma split_loop_total:
  "list_all (splittable cfg root) tcs \<Longrightarrow> \<forall>path. can_write ev path \<Longrightarrow>
   snd (split_loop cfg ev root dir n idx tcs r) = None"
proof (induction tcs arbitrary: idx r)
  case Nil
  then show ?case by simp
next
  case (Cons tc tcs)
  obtain suite test where tc: "tc = (suite, test)" by (cases tc)
  have "snd (process_test cfg ev root dir n idx suite test r) = None"
    using process_test_total [of cfg root suite test ev] Cons.prems by (simp add: tc)
  then show ?case using Cons.IH [of "Suc idx"] Cons.prems
    by (simp add: tc split_loop_Cons del: split_loop.simps)
qed

text \<open>
  Claim C8, as amended. What the renderer does for a pair (a return code that is not zero,
  a missing binary, any other exception of the call) changes neither the files written
  nor the renderer calls made nor the exception that ends the run, for this pair and for
  all others. When the directory and the report can be read, every file can be written and
  every pair can be split, the run ends without exception whatever the renderer does: one
  complete document is written for each pair and each is handed to the renderer. An
  exception raised while the document of a pair is built or written is not caught: it ends
  the loop with the state reached, whatever pairs follow.
\<close>

theorem render_failure_isolated:
  "files (fst (split_to_chunks cfg (ev\<lparr>rebot := rb\<rparr>) x d)) = files (fst (split_to_chunks cfg ev x d)) \<and>
   commands (fst (split_to_chunks cfg (ev\<lparr>rebot := rb\<rparr>) x d))
     = commands (fst (split_to_chunks cfg ev x d)) \<and>
   snd (split_to_chunks cfg (ev\<lparr>rebot := rb\<rparr>) x d) = snd (split_to_chunks cfg ev x d) \<and>
   (mkdir ev d = None \<and> parse ev x = Inr root \<and> (\<forall>path. can_write ev path) \<and>
    list_all (splittable cfg root) (test_cases_of root) \<longrightarrow>
      snd (split_to_chunks cfg ev x d) = None \<and>
      length (files (fst (split_to_chunks cfg ev x d))) = length (test_cases_of root) \<and>
      map fst (files (fst (split_to_chunks cfg ev x d)))
        = map last (commands (fst (split_to_chunks cfg ev x d))) \<and>
      Truncated \<notin> snd ` set (files (fst (split_to_chunks cfg ev x d)))) \<and>
   (process_test cfg ev root d n idx suite test r = (r', Some e) \<longrightarrow>
      split_loop cfg ev root d n idx ((suite, test) # rest) r = (r', Some e))"
proof -
  have b: "snd (split_to_chunks cfg ev x d) = None \<and>
      length (files (fst (split_to_chunks cfg ev x d))) = length (test_cases_of root) \<and>
      map fst (files (fst (split_to_chunks cfg ev x d)))
        = map last (commands (fst (split_to_chunks cfg ev x d))) \<and>
      Truncated \<notin> snd ` set (files (fst (split_to_chunks cfg ev x d)))"
    if m: "mkdir ev d = None" and p: "parse ev x = Inr root" and w: "\<forall>path. can_write ev path"
      and s: "list_all (splittable cfg root) (test_cases_of root)"
  proof -
    let ?r0 = "debug_print cfg [Found (length (test_cases_of root))]
                 \<lparr>files = [], commands = [], printed = []\<rparr>"
    let ?l = "split_loop cfg ev root d (length (test_cases_of root)) 1 (test_cases_of root) ?r0"
    have eq: "split_to_chunks cfg ev x d = ?l"
      by (simp add: split_to_chunks_def m p Let_def)
    have n: "snd ?l = None" using split_loop_total [OF s w] by simp
    then have "?l = (fst ?l, None)" by (simp add: prod_eq_iff)
    from split_loop_ok [OF this] have
      "map fst (files (fst ?l)) = map last (commands (fst ?l)) \<and>
       Truncated \<notin> snd ` set (files (fst ?l)) \<and>
       length (files (fst ?l)) = length (test_cases_of root)"
      by simp
    then show ?thesis using n unfolding eq by simp
  qed
  have c: "split_loop cfg ev root d n idx ((suite, test) # rest) r = (r', Some e)"
    if "process_test cfg ev root d n idx suite test r = (r', Some e)"
    using that by simp
  show ?thesis using split_to_chunks_rebot [of cfg rb ev x d] b c by blast
qed


theorem render_failure_isolated_witness:
  "mkdir ((example_env (\<lambda>s. s) (\<lambda>_. Inr session_report))\<lparr>rebot := \<lambda>_. FileNotFoundError\<rparr>) ''out''
     = None \<and>
   parse ((example_env (\<lambda>s. s) (\<lambda>_. Inr session_report))\<lparr>rebot := \<lambda>_. FileNotFoundError\<rparr>)
     ''output.xml'' = Inr session_report \<and>
   (\<forall>path. can_write
      ((example_env (\<lambda>s. s) (\<lambda>_. Inr session_report))\<lparr>rebot := \<lambda>_. FileNotFoundError\<rparr>) path) \<and>
   list_all (splittable session_prefix session_report) (test_cases_of session_report) \<and>
   length (test_cases_of session_report) = 2 \<and>
   snd (split_to_chunks session_prefix
          ((example_env (\<lambda>s. s) (\<lambda>_. Inr session_report))\<lparr>rebot := \<lambda>_. FileNotFoundError\<rparr>)
          ''output.xml'' ''out'') = None \<and>
   length (files (fst (split_to_chunks session_prefix
          ((example_env (\<lambda>s. s) (\<lambda>_. Inr session_report))\<lparr>rebot := \<lambda>_. FileNotFoundError\<rparr>)
          ''output.xml'' ''out''))) = 2 \<and>
   files (fst (split_to_chunks session_prefix
          ((example_env (\<lambda>s. s) (\<lambda>_. Inr session_report))\<lparr>rebot := \<lambda>_. FileNotFoundError\<rparr>)
          ''output.xml'' ''out''))
     = files (fst (split_to_chunks session_prefix (example_env (\<lambda>s. s) (\<lambda>_. Inr session_report))
          ''output.xml'' ''out'')) \<and>
   snd (process_test no_prefix (example_env (\<lambda>s. s) (\<lambda>_. Inr broken_report)) broken_report
          ''out'' 2 1 broken_suite broken_test empty_run)
     = Some (AttributeError (none_has_no ''get'')) \<and>
   split_loop no_prefix (example_env (\<lambda>s. s) (\<lambda>_. Inr broken_report)) broken_report ''out'' 2 1
       [(broken_suite, broken_test), (broken_suite, logout_test)] empty_run
     = (fst (process_test no_prefix (example_env (\<lambda>s. s) (\<lambda>_. Inr broken_report)) broken_report
               ''out'' 2 1 broken_suite broken_test empty_run),
        Some (AttributeError (none_has_no ''get'')))"
proof -
  let ?e = "example_env (\<lambda>s. s) (\<lambda>_. Inr session_report)"
  let ?f = "?e\<lparr>rebot := \<lambda>_. FileNotFoundError\<rparr>"
  let ?b = "example_env (\<lambda>s. s) (\<lambda>_. Inr broken_report)"
  let ?p = "process_test no_prefix ?b broken_report ''out'' 2 1 broken_suite broken_test empty_run"
  have m: "mkdir ?f ''out'' = None" by (simp add: example_env_def)
  have p: "parse ?f ''output.xml'' = Inr session_report" by (simp add: example_env_def)
  have w: "\<forall>path. can_write ?f path" by (simp add: example_env_def)
  have s: "list_all (splittable session_prefix session_report) (test_cases_of session_report)"
    by code_simp
  have n: "length (test_cases_of session_report) = 2" by code_simp
  have a: "snd (split_to_chunks session_prefix ?f ''output.xml'' ''out'') = None \<and>
           length (files (fst (split_to_chunks session_prefix ?f ''output.xml'' ''out'')))
             = length (test_cases_of session_report)"
    using render_failure_isolated [where cfg = session_prefix and ev = ?f and x = "''output.xml''"
        and d = "''out''" and root = session_report] m p w s
    by blast
  have i: "files (fst (split_to_chunks session_prefix ?f ''output.xml'' ''out''))
           = files (fst (split_to_chunks session_prefix ?e ''output.xml'' ''out''))"
    using render_failure_isolated [where cfg = session_prefix and ev = ?e
        and rb = "\<lambda>_. FileNotFoundError" and x = "''output.xml''" and d = "''out''"]
    by blast
  have q: "snd ?p = Some (AttributeError (none_has_no ''get''))" by code_simp
  then have "?p = (fst ?p, Some (AttributeError (none_has_no ''get'')))"
    by (simp add: prod_eq_iff)
  then have l: "split_loop no_prefix ?b broken_report ''out'' 2 1
       ((broken_suite, broken_test) # [(broken_suite, logout_test)]) empty_run
     = (fst ?p, Some (AttributeError (none_has_no ''get'')))"
    using render_failure_isolated [where cfg = no_prefix and ev = ?b and root = broken_report
        and d = "''out''" and n = 2 and idx = 1 and suite = broken_suite and test = broken_test
        and r = empty_run and r' = "fst ?p" and e = "AttributeError (none_has_no ''get'')"
        and rest = "[(broken_suite, logout_test)]"]
    by blast
  show ?thesis
    apply (intro conjI)
    apply (rule m p w s n q l i | simp only: a n)+
    done
qed

text \<open>
  The claim as stated fails for a failure while building: the first test of the report has
  no status element, the run ends there with an AttributeError and without any file, and
  the document of the second test, which can be split on its own, is never written.
\<close>

theorem split_failure_ends_run:
  "test_cases_of broken_report = [(broken_suite, broken_test), (broken_suite, logout_test)] \<and>
   snd (split_to_chunks no_prefix (example_env (\<lambda>s. s) (\<lambda>_. Inr broken_report))
          ''output.xml'' ''out'') = Some (AttributeError (none_has_no ''get'')) \<and>
   files (fst (split_to_chunks no_prefix (example_env (\<lambda>s. s) (\<lambda>_. Inr broken_report))
          ''output.xml'' ''out'')) = [] \<and>
   commands (fst (split_to_chunks no_prefix (example_env (\<lambda>s. s) (\<lambda>_. Inr broken_report))
          ''output.xml'' ''out'')) = [] \<and>
   snd (process_test no_prefix (example_env (\<lambda>s. s) (\<lambda>_. Inr broken_report)) broken_report
          ''out'' 2 2 broken_suite logout_test empty_run) = None \<and>
   map fst (files (fst (process_test no_prefix (example_env (\<lambda>s. s) (\<lambda>_. Inr broken_report))
          broken_report ''out'' 2 2 broken_suite logout_test empty_run)))
     = [''out/2_Logout_s1-t2.xml'']"
  by code_simp

end
